theory Spec2Isabelle
  imports Main "HOL-Library.Char_ord" "HOL-Library.List_Lexorder"
begin

section \<open>Texts, character classes and the regular expressions of the extractor\<close>

text \<open>
  Python strings are modelled as \<^typ>\<open>string\<close>: every character is a code point below
  256, which covers ASCII and Latin-1. On that range Python's \<^verbatim>\<open>\s\<close>, \<^verbatim>\<open>\d\<close>,
  \<^verbatim>\<open>str.lower\<close>, \<^verbatim>\<open>str.isdigit\<close> and the \<^verbatim>\<open>re.IGNORECASE\<close> comparison are the
  functions below. An element returned by BeautifulSoup is modelled by the text that
  \<^verbatim>\<open>extract_text\<close> reads from it, and a lookup that finds nothing by \<^const>\<open>None\<close>
  (a Tag is always truthy, so \<^verbatim>\<open>if element\<close> tests for \<^verbatim>\<open>None\<close> only).
\<close>

datatype py_error = KeyError string | ValueError | OverflowError | TypeError

definition newline :: char where
  "newline = CHR 0x0A"

definition is_space :: "char \<Rightarrow> bool" where
  "is_space c = (c \<in> set [CHR 0x09, CHR 0x0A, CHR 0x0B, CHR 0x0C, CHR 0x0D,
       CHR 0x1C, CHR 0x1D, CHR 0x1E, CHR 0x1F, CHR 0x20, CHR 0x85, CHR 0xA0])"

definition is_digit :: "char \<Rightarrow> bool" where
  "is_digit c = (c \<in> set ''0123456789'')"

definition lower_char :: "char \<Rightarrow> char" where
  "lower_char c = (let n = (of_char c :: nat) in
     if (65 \<le> n \<and> n \<le> 90) \<or> (192 \<le> n \<and> n \<le> 222 \<and> n \<noteq> 215)
     then char_of (n + 32) else c)"

definition lower :: "string \<Rightarrow> string" where
  "lower s = map lower_char s"

text \<open>\<^verbatim>\<open>p in s\<close> on strings: \<open>p\<close> occurs in \<open>s\<close> as a contiguous block.\<close>

fun starts_with :: "string \<Rightarrow> string \<Rightarrow> bool" where
  "starts_with [] s = True"
| "starts_with (p # ps) [] = False"
| "starts_with (p # ps) (c # cs) = (p = c \<and> starts_with ps cs)"

fun is_substr :: "string \<Rightarrow> string \<Rightarrow> bool" where
  "is_substr p [] = (p = [])"
| "is_substr p (c # cs) = (starts_with p (c # cs) \<or> is_substr p cs)"

text \<open>
  \<^verbatim>\<open>re.search\<close>: the match is tried at every start position from the left, the end of
  the text included, and the first position where it succeeds wins.
\<close>

fun re_search :: "(string \<Rightarrow> 'a option) \<Rightarrow> string \<Rightarrow> 'a option" where
  "re_search m [] = m []"
| "re_search m (c # cs) = (case m (c # cs) of Some r \<Rightarrow> Some r | None \<Rightarrow> re_search m cs)"

text \<open>
  The pieces of a pattern take the text at the current position and return the rest
  after the piece, or \<^const>\<open>None\<close>. The greedy \<^verbatim>\<open>\s*\<close>, \<^verbatim>\<open>\s+\<close> and \<^verbatim>\<open>\d+\<close> of the
  source are each followed by a character outside their class, so only the longest run
  can lead to a match.
\<close>

fun lit :: "string \<Rightarrow> string \<Rightarrow> string option" where
  "lit [] s = Some s"
| "lit (p # ps) [] = None"
| "lit (p # ps) (c # cs) = (if c = p then lit ps cs else None)"

fun lit_ci :: "string \<Rightarrow> string \<Rightarrow> string option" where
  "lit_ci [] s = Some s"
| "lit_ci (p # ps) [] = None"
| "lit_ci (p # ps) (c # cs) = (if lower_char c = lower_char p then lit_ci ps cs else None)"

definition ws0 :: "string \<Rightarrow> string option" where
  "ws0 s = Some (dropWhile is_space s)"

definition ws1 :: "string \<Rightarrow> string option" where
  "ws1 s = (case s of [] \<Rightarrow> None
            | c # cs \<Rightarrow> if is_space c then Some (dropWhile is_space cs) else None)"

text \<open>
  \<^verbatim>\<open>$\<close> without \<^verbatim>\<open>re.MULTILINE\<close> holds at the end of the text and before a newline that
  is its last character.
\<close>

definition at_end :: "string \<Rightarrow> bool" where
  "at_end s = (s = [] \<or> s = [newline])"

text \<open>
  The lazy group \<^verbatim>\<open>(.+?)\<close> followed by a terminator: it takes one character that is not
  a newline, then stops at the first position where the terminator matches.
\<close>

fun lazy_group :: "(string \<Rightarrow> bool) \<Rightarrow> string \<Rightarrow> string option" where
  "lazy_group stop [] = None"
| "lazy_group stop (c # cs) =
     (if c = newline then None
      else if stop cs then Some [c]
      else map_option ((#) c) (lazy_group stop cs))"

text \<open>\<^verbatim>\<open>(\d+)%\<close>: group 1 is the run of digits.\<close>

definition perc_at :: "string \<Rightarrow> string option" where
  "perc_at s = (let ds = takeWhile is_digit s in
     if ds \<noteq> [] \<and> starts_with ''%'' (dropWhile is_digit s) then Some ds else None)"

definition search_perc :: "string \<Rightarrow> string option" where
  "search_perc s = re_search perc_at s"

text \<open>\<^verbatim>\<open>(\d{4}-\d{2}-\d{2})\<close>: group 1 and the rest of the text after it.\<close>

fun date_at :: "string \<Rightarrow> (string \<times> string) option" where
  "date_at (a # b # c # d # e # f # g # h # i # j # rest) =
     (if is_digit a \<and> is_digit b \<and> is_digit c \<and> is_digit d \<and> e = CHR ''-'' \<and>
         is_digit f \<and> is_digit g \<and> h = CHR ''-'' \<and> is_digit i \<and> is_digit j
      then Some ([a, b, c, d, e, f, g, h, i, j], rest) else None)"
| "date_at s = None"

definition search_date :: "string \<Rightarrow> string option" where
  "search_date s = re_search (\<lambda>t. map_option fst (date_at t)) s"

text \<open>A label, optional white space and a date: \<^verbatim>\<open>Expire:\s*(\d{4}-\d{2}-\d{2})\<close>.\<close>

definition labelled_date_at :: "string \<Rightarrow> string \<Rightarrow> string option" where
  "labelled_date_at label s =
     Option.bind (Option.bind (lit label s) ws0) (\<lambda>t. map_option fst (date_at t))"

definition search_labelled_date :: "string \<Rightarrow> string \<Rightarrow> string option" where
  "search_labelled_date label s = re_search (labelled_date_at label) s"

section \<open>The quality-audit panel: \<^verbatim>\<open>parse_quality_audits\<close>\<close>

type_synonym metrics = "string \<rightharpoonup> string"

text \<open>\<^verbatim>\<open>SMA\s*/\s*Criticality\s+1\s+Index(.+?)(?:Software Index|EE Index|$)\<close>, ignoring case.\<close>

definition sma_anchor :: "string \<Rightarrow> string option" where
  "sma_anchor s =
     Option.bind (Option.bind (Option.bind (Option.bind (Option.bind (Option.bind
       (Option.bind (Option.bind (lit_ci ''SMA'' s) ws0) (lit_ci ''/'')) ws0)
       (lit_ci ''Criticality'')) ws1) (lit_ci ''1'')) ws1) (lit_ci ''Index'')"

definition sma_stop :: "string \<Rightarrow> bool" where
  "sma_stop s = (lit_ci ''Software Index'' s \<noteq> None \<or> lit_ci ''EE Index'' s \<noteq> None \<or> at_end s)"

definition sma_match :: "string \<Rightarrow> string option" where
  "sma_match text = re_search (\<lambda>s. Option.bind (sma_anchor s) (lazy_group sma_stop)) text"

text \<open>\<^verbatim>\<open>Software\s+Index(.+?)(?:EE Index|$)\<close>, ignoring case.\<close>

definition sw_anchor :: "string \<Rightarrow> string option" where
  "sw_anchor s = Option.bind (Option.bind (lit_ci ''Software'' s) ws1) (lit_ci ''Index'')"

definition sw_stop :: "string \<Rightarrow> bool" where
  "sw_stop s = (lit_ci ''EE Index'' s \<noteq> None \<or> at_end s)"

definition sw_match :: "string \<Rightarrow> string option" where
  "sw_match text = re_search (\<lambda>s. Option.bind (sw_anchor s) (lazy_group sw_stop)) text"

text \<open>\<^verbatim>\<open>EE\s+Index(.+?)$\<close>, ignoring case.\<close>

definition ee_anchor :: "string \<Rightarrow> string option" where
  "ee_anchor s = Option.bind (Option.bind (lit_ci ''EE'' s) ws1) (lit_ci ''Index'')"

definition ee_match :: "string \<Rightarrow> string option" where
  "ee_match text = re_search (\<lambda>s. Option.bind (ee_anchor s) (lazy_group at_end)) text"

definition quality_defaults :: metrics where
  "quality_defaults = map_of
     [(''swIndex'', ''N/A''), (''swStatus'', ''N/A''), (''sw Date'', ''N/A''),
      (''eeIndex'', ''N/A''), (''eeStatus'', ''N/A''), (''eeDate'', ''N/A''),
      (''sma'', ''N/A''), (''smaStatus'', ''N/A''), (''smaDate'', ''N/A'')]"

text \<open>\<^verbatim>\<open>metrics[k]\<close> read: a missing key raises \<^verbatim>\<open>KeyError\<close>.\<close>

definition getitem :: "metrics \<Rightarrow> string \<Rightarrow> py_error + string" where
  "getitem m k = (case m k of None \<Rightarrow> Inl (KeyError k) | Some v \<Rightarrow> Inr v)"

text \<open>
  The percentage, status and date of one segment, written under the three keys given.
  The status test asks for \<^verbatim>\<open>Approved\<close> first, as lines 58 to 61 and 77 to 80 do.
\<close>

definition segment_fields :: "string \<Rightarrow> string \<Rightarrow> string \<Rightarrow> string \<Rightarrow> metrics \<Rightarrow> metrics" where
  "segment_fields kperc kstatus kdate seg m =
     (let m1 = (case search_perc seg of Some p \<Rightarrow> m(kperc \<mapsto> p @ ''%'') | None \<Rightarrow> m);
          m2 = (if is_substr ''Approved'' seg then m1(kstatus \<mapsto> ''Approved'')
                else if is_substr ''Not approved'' seg \<or> is_substr ''Not Approved'' seg
                then m1(kstatus \<mapsto> ''Not Approved'')
                else m1)
      in (case search_date seg of Some d \<Rightarrow> m2(kdate \<mapsto> d) | None \<Rightarrow> m2))"

text \<open>
  Each block ends with a \<^verbatim>\<open>print\<close> that reads its three keys back. The defaults hold
  \<^verbatim>\<open>'sw Date'\<close>, so the read of \<^verbatim>\<open>metrics['swDate']\<close> on line 85 raises when the software
  segment has no date.
\<close>

definition printed :: "string list \<Rightarrow> metrics \<Rightarrow> py_error + metrics" where
  "printed ks m = (case filter (\<lambda>k. m k = None) ks of [] \<Rightarrow> Inr m | k # _ \<Rightarrow> Inl (KeyError k))"

definition sma_block :: "string \<Rightarrow> metrics \<Rightarrow> py_error + metrics" where
  "sma_block text m = (case sma_match text of None \<Rightarrow> Inr m
     | Some seg \<Rightarrow> printed [''sma'', ''smaStatus'', ''smaDate'']
                     (segment_fields ''sma'' ''smaStatus'' ''smaDate'' seg m))"

definition sw_block :: "string \<Rightarrow> metrics \<Rightarrow> py_error + metrics" where
  "sw_block text m = (case sw_match text of None \<Rightarrow> Inr m
     | Some seg \<Rightarrow> printed [''swIndex'', ''swStatus'', ''swDate'']
                     (segment_fields ''swIndex'' ''swStatus'' ''swDate'' seg m))"

definition ee_fields :: "string \<Rightarrow> metrics \<Rightarrow> py_error + metrics" where
  "ee_fields seg m =
     (let m1 = (case search_perc seg of Some p \<Rightarrow> m(''eeIndex'' \<mapsto> p @ ''%'') | None \<Rightarrow> m);
          m2 = (if is_substr ''Approved with conditions'' seg
                then m1(''eeStatus'' \<mapsto> ''Approved with conditions'')
                else if is_substr ''Approved'' seg then m1(''eeStatus'' \<mapsto> ''Approved'')
                else if is_substr ''Not approved'' seg \<or> is_substr ''Not Approved'' seg
                then m1(''eeStatus'' \<mapsto> ''Not Approved'')
                else m1)
      in (case (if is_substr ''Restriction'' seg
                then (case getitem m2 ''eeStatus'' of Inl e \<Rightarrow> Inl e
                      | Inr v \<Rightarrow> Inr (m2(''eeStatus'' \<mapsto> v @ '' (Restriction)'')))
                else Inr m2) of
            Inl e \<Rightarrow> Inl e
          | Inr m3 \<Rightarrow> Inr (case search_date seg of Some d \<Rightarrow> m3(''eeDate'' \<mapsto> d) | None \<Rightarrow> m3)))"

definition ee_block :: "string \<Rightarrow> metrics \<Rightarrow> py_error + metrics" where
  "ee_block text m = (case ee_match text of None \<Rightarrow> Inr m
     | Some seg \<Rightarrow> (case ee_fields seg m of Inl e \<Rightarrow> Inl e
                    | Inr m' \<Rightarrow> printed [''eeIndex'', ''eeStatus'', ''eeDate''] m'))"

text \<open>The argument is the text of the div with id \<^verbatim>\<open>IndexAuditPanel\<close>, if there is one.\<close>

definition parse_quality_audits :: "string option \<Rightarrow> py_error + metrics" where
  "parse_quality_audits audit_panel = (case audit_panel of None \<Rightarrow> Inr quality_defaults
     | Some audit_text \<Rightarrow>
        (case sma_block audit_text quality_defaults of Inl e \<Rightarrow> Inl e
         | Inr m1 \<Rightarrow> (case sw_block audit_text m1 of Inl e \<Rightarrow> Inl e
            | Inr m2 \<Rightarrow> ee_block audit_text m2)))"

section \<open>Dates: \<^verbatim>\<open>datetime.strptime(s, '%Y-%m-%d')\<close> and the comparison with the clock\<close>

record datetime =
  year :: nat
  month :: nat
  day :: nat
  hour :: nat
  minute :: nat
  second :: nat
  microsecond :: nat

text \<open>Naive datetimes compare field by field, the year first.\<close>

definition dt_key :: "datetime \<Rightarrow> nat list" where
  "dt_key t = [year t, month t, day t, hour t, minute t, second t, microsecond t]"

definition dt_lt :: "datetime \<Rightarrow> datetime \<Rightarrow> bool" where
  "dt_lt a b = (dt_key a < dt_key b)"

definition digit_val :: "char \<Rightarrow> nat" where
  "digit_val c = of_char c - 48"

text \<open>The number that a run of decimal digits denotes.\<close>

definition digits_val :: "string \<Rightarrow> nat" where
  "digits_val s = foldl (\<lambda>n c. 10 * n + digit_val c) 0 s"

text \<open>
  \<^verbatim>\<open>int(s)\<close> on a run of decimal digits. CPython refuses a text of more than
  \<^verbatim>\<open>sys.get_int_max_str_digits()\<close> digits, 4300 unless configured otherwise, leading zeros
  counted, with \<^verbatim>\<open>ValueError\<close>.
\<close>

definition int_max_str_digits :: nat where
  "int_max_str_digits = 4300"

definition py_int :: "string \<Rightarrow> py_error + nat" where
  "py_int s = (if length s > int_max_str_digits then Inl ValueError else Inr (digits_val s))"

definition leap_year :: "nat \<Rightarrow> bool" where
  "leap_year y = (y mod 4 = 0 \<and> (y mod 100 \<noteq> 0 \<or> y mod 400 = 0))"

definition days_in_month :: "nat \<Rightarrow> nat \<Rightarrow> nat" where
  "days_in_month y m =
     (if m = 2 then (if leap_year y then 29 else 28)
      else if m = 4 \<or> m = 6 \<or> m = 9 \<or> m = 11 then 30 else 31)"

definition valid_date :: "nat \<Rightarrow> nat \<Rightarrow> nat \<Rightarrow> bool" where
  "valid_date y m d = (1 \<le> y \<and> 1 \<le> m \<and> m \<le> 12 \<and> 1 \<le> d \<and> d \<le> days_in_month y m)"

text \<open>
  The argument is always a match of \<^verbatim>\<open>\d{4}-\d{2}-\d{2}\<close>. \<^verbatim>\<open>strptime\<close> raises
  \<^verbatim>\<open>ValueError\<close> when the digits are not a calendar date (month 13, day 00, year 0000,
  30 February); otherwise the result is midnight of that day.
\<close>

definition strptime_ymd :: "string \<Rightarrow> py_error + datetime" where
  "strptime_ymd s =
     (let y = digits_val (take 4 s); m = digits_val (take 2 (drop 5 s));
          d = digits_val (take 2 (drop 8 s))
      in if valid_date y m d
         then Inr \<lparr>year = y, month = m, day = d, hour = 0, minute = 0, second = 0,
                   microsecond = 0\<rparr>
         else Inl ValueError)"

section \<open>Audit entries: \<^verbatim>\<open>parse_supplier_html\<close>, lines 175 to 367\<close>

record audit_entry =
  title :: string
  status :: string
  statusClass :: string
  date :: string

definition sem_entry :: "string \<Rightarrow> audit_entry" where
  "sem_entry sem_text =
     (let sc = (if is_substr ''Not approved'' sem_text \<or> is_substr ''Not Approved'' sem_text
                then (''Not Approved'', ''status-not-approved'')
                else if is_substr ''Approved'' sem_text then (''Approved'', ''status-approved'')
                else (''Unknown'', ''status-na''));
          percentage = (case search_perc sem_text of Some p \<Rightarrow> p @ ''%'' | None \<Rightarrow> ''N/A'');
          d = (case search_date sem_text of Some ds \<Rightarrow> ds | None \<Rightarrow> ''N/A'');
          st = (if is_substr ''StoppingParameter'' sem_text then fst sc @ '' (Stopping)''
                else fst sc)
      in \<lparr>title = ''SEM'', status = st @ '' '' @ percentage, statusClass = snd sc, date = d\<rparr>)"

text \<open>
  Lines 224 to 232 and 256 to 263: the status of a certificate from the match of
  \<^verbatim>\<open>Expire:\s*(\d{4}-\d{2}-\d{2})\<close> and the reading of \<^verbatim>\<open>datetime.now()\<close>.
\<close>

definition cert_status :: "datetime \<Rightarrow> string option \<Rightarrow> py_error + (string \<times> string)" where
  "cert_status now expire_match = (case expire_match of
       None \<Rightarrow> Inr (''Approved'', ''status-approved'')
     | Some ds \<Rightarrow> (case strptime_ymd ds of
           Inl e \<Rightarrow> Inl e
         | Inr expire_date \<Rightarrow>
             Inr (if dt_lt expire_date now then (''Expired'', ''status-expired'')
                  else (''Approved'', ''status-approved''))))"

definition cert_entry :: "string \<Rightarrow> datetime \<Rightarrow> string \<Rightarrow> py_error + audit_entry list" where
  "cert_entry ttl now cert_text =
     (let expire_match = search_labelled_date ''Expire:'' cert_text
      in case cert_status now expire_match of
           Inl e \<Rightarrow> Inl e
         | Inr sc \<Rightarrow> Inr [\<lparr>title = ttl, status = fst sc, statusClass = snd sc,
                date = ''Exp: '' @ (case expire_match of Some ds \<Rightarrow> ds | None \<Rightarrow> ''N/A'')\<rparr>])"

text \<open>One rating cell of a labelled row gives the entries to append, or raises.\<close>

definition quality_cert_cell :: "datetime \<Rightarrow> string \<Rightarrow> py_error + audit_entry list" where
  "quality_cert_cell now cert_text =
     (if is_substr ''IATF'' cert_text \<or> is_substr ''ISO'' cert_text
      then cert_entry ''Quality Cert'' now cert_text else Inr [])"

definition env_cert_cell :: "datetime \<Rightarrow> string \<Rightarrow> py_error + audit_entry list" where
  "env_cert_cell now cert_text =
     (if is_substr ''ISO 14001'' cert_text
      then cert_entry ''ISO 14001'' now cert_text else Inr [])"

text \<open>\<^verbatim>\<open>([ABC])\s+(\d+)%\<close> and \<^verbatim>\<open>\((\d{4}-\d{2}-\d{2})\)\<close>.\<close>

definition grade_at :: "string \<Rightarrow> (char \<times> string) option" where
  "grade_at s = (case s of [] \<Rightarrow> None
     | g # r \<Rightarrow> if g \<in> set ''ABC''
               then Option.bind (ws1 r) (\<lambda>t. map_option (\<lambda>p. (g, p)) (perc_at t))
               else None)"

definition paren_date_at :: "string \<Rightarrow> string option" where
  "paren_date_at s = Option.bind (Option.bind (lit ''('' s) date_at)
     (\<lambda>dr. if starts_with '')'' (snd dr) then Some (fst dr) else None)"

definition logistic_cell :: "string \<Rightarrow> audit_entry list" where
  "logistic_cell audit_text =
     (if audit_text \<noteq> [] \<and> audit_text \<noteq> ''N/A''
      then (case re_search grade_at audit_text of
              None \<Rightarrow> []
            | Some gp \<Rightarrow>
               [\<lparr>title = ''Logistic'', status = [fst gp] @ '' '' @ snd gp @ ''%'',
                 statusClass = (if fst gp = CHR ''A'' then ''status-excellent''
                                else if fst gp = CHR ''B'' then ''status-approved''
                                else ''status-not-approved''),
                 date = (case re_search paren_date_at audit_text of
                           Some ds \<Rightarrow> ds | None \<Rightarrow> ''N/A'')\<rparr>])
      else [])"

definition reach_cell :: "string \<Rightarrow> audit_entry list" where
  "reach_cell reach_text =
     (if is_substr ''Compliant'' reach_text
      then [\<lparr>title = ''REACH'', status = ''Compliant'', statusClass = ''status-approved'',
             date = ''Eval: '' @ (case search_labelled_date ''Evaluated:'' reach_text of
                                   Some ds \<Rightarrow> ds | None \<Rightarrow> ''N/A'')\<rparr>]
      else [])"

text \<open>\<^verbatim>\<open>str(n)\<close> for a natural number, as the f-string on line 344 prints it.\<close>

fun str_of_nat :: "nat \<Rightarrow> string" where
  "str_of_nat n = (if n < 10 then [''0123456789'' ! n]
                   else str_of_nat (n div 10) @ [''0123456789'' ! (n mod 10)])"

declare str_of_nat.simps [simp del]

text \<open>Lines 346 to 354: the status class and the CSR status of a percentage.\<close>

definition csr_class :: "nat \<Rightarrow> string \<times> string" where
  "csr_class percentage =
     (if percentage \<ge> 80 then (''status-approved'', ''Approved'')
      else if percentage \<ge> 60 then (''status-pending'', ''Pending'')
      else (''status-not-approved'', ''Not Approved''))"

text \<open>
  The CSR cell appends to the audits and writes three metrics; \<^verbatim>\<open>int\<close> on line 341 can
  raise. The loop over the cells of the row stops at the first exception.
\<close>

definition csr_cell :: "string \<Rightarrow> audit_entry list \<times> metrics
    \<Rightarrow> py_error + (audit_entry list \<times> metrics)" where
  "csr_cell csr_text am = (case search_perc csr_text of
       None \<Rightarrow> Inr am
     | Some ds \<Rightarrow> (case py_int ds of
          Inl e \<Rightarrow> Inl e
        | Inr percentage \<Rightarrow>
           (let st = str_of_nat percentage @ ''%'';
                date_str = (case search_labelled_date ''Evaluated:'' csr_text of
                              Some d \<Rightarrow> d | None \<Rightarrow> ''N/A'')
            in Inr (fst am @ [\<lparr>title = ''CSR'', status = st,
                               statusClass = fst (csr_class percentage),
                               date = ''Eval: '' @ date_str\<rparr>],
                    (snd am)(''csr'' \<mapsto> st, ''csrStatus'' \<mapsto> snd (csr_class percentage),
                             ''csrDate'' \<mapsto> date_str)))))"

fun for_csr_cells :: "string list \<Rightarrow> audit_entry list \<times> metrics
    \<Rightarrow> py_error + (audit_entry list \<times> metrics)" where
  "for_csr_cells [] am = Inr am"
| "for_csr_cells (c # cs) am =
     (case csr_cell c am of Inl e \<Rightarrow> Inl e | Inr am' \<Rightarrow> for_csr_cells cs am')"

section \<open>The performance series: lines 373 to 434\<close>

text \<open>
  Python's floats and the \<^verbatim>\<open>random\<close> module are not part of the repository. They are
  taken as parameters: \<^typ>\<open>'f\<close> is the type of Python numbers, \<^typ>\<open>'g\<close> the state of the
  module-level generator. \<^verbatim>\<open>float(s)\<close> and \<^verbatim>\<open>int(x)\<close> can raise (two dots in the text,
  an infinite value), which is \<^const>\<open>None\<close>; the other operations always return.
\<close>

record ('f, 'g) pylib =
  to_float :: "string \<Rightarrow> 'f option"
  py_zero :: "'f"
  gt_zero :: "'f \<Rightarrow> bool"
  to_int :: "'f \<Rightarrow> int option"
  py_add :: "'f \<Rightarrow> 'f \<Rightarrow> 'f"
  round1 :: "'f \<Rightarrow> 'f"
  max_zero :: "'f \<Rightarrow> 'f"
  seed :: "int \<Rightarrow> 'g"
  uniform :: "int \<Rightarrow> int \<Rightarrow> 'g \<Rightarrow> 'f \<times> 'g"

record 'f series =
  months :: "string list"
  series_values :: "'f list"

definition MONTHS :: "string list" where
  "MONTHS = [''Jan'', ''Feb'', ''Mar'', ''Apr'', ''May'', ''Jun'',
             ''Jul'', ''Aug'', ''Sep'', ''Oct'', ''Nov'', ''Dec'']"

text \<open>\<^verbatim>\<open>str.isdigit\<close>: not empty, and every character a digit; the superscripts 1, 2, 3 count.\<close>

definition py_isdigit :: "string \<Rightarrow> bool" where
  "py_isdigit s = (s \<noteq> [] \<and>
     list_all (\<lambda>c. is_digit c \<or> c \<in> set [CHR 0xB2, CHR 0xB3, CHR 0xB9]) s)"

definition cell_value :: "('f, 'g) pylib \<Rightarrow> string \<Rightarrow> 'f option" where
  "cell_value L txt =
     (if py_isdigit (filter (\<lambda>c. c \<noteq> CHR ''.'') txt) then to_float L txt
      else Some (py_zero L))"

text \<open>
  The loop of lines 411 to 415, \<open>k\<close> rounds still to run: one draw for QPM, then one for
  PPM, each value rounded to one decimal and clipped at zero.
\<close>

fun jitter_loop :: "('f, 'g) pylib \<Rightarrow> nat \<Rightarrow> 'f \<Rightarrow> 'f \<Rightarrow> 'g \<Rightarrow> 'f list \<Rightarrow> 'f list
    \<Rightarrow> 'f list \<times> 'f list \<times> 'g" where
  "jitter_loop L 0 qpm_val ppm_val g qpm_values ppm_values = (qpm_values, ppm_values, g)"
| "jitter_loop L (Suc k) qpm_val ppm_val g qpm_values ppm_values =
     (let u1 = uniform L (- 10) 10 g;
          u2 = uniform L (- 5) 5 (snd u1)
      in jitter_loop L k qpm_val ppm_val (snd u2)
           (qpm_values @ [max_zero L (round1 L (py_add L qpm_val (fst u1)))])
           (ppm_values @ [max_zero L (round1 L (py_add L ppm_val (fst u2)))]))"

text \<open>\<^verbatim>\<open>xs[-1] = v\<close>; the list has twelve elements where it is used.\<close>

definition set_last :: "'a list \<Rightarrow> 'a \<Rightarrow> 'a list" where
  "set_last xs v = xs[length xs - 1 := v]"

text \<open>
  Lines 402 to 420 for the two actual values: the generator is seeded, whatever its
  state was, and the two series of twelve values are drawn. \<^const>\<open>None\<close> is the
  exception of \<^verbatim>\<open>int(qpm_val)\<close>, raised before the seeding.
\<close>

definition generate_series :: "('f, 'g) pylib \<Rightarrow> 'g \<Rightarrow> 'f \<Rightarrow> 'f
    \<Rightarrow> ('f series \<times> 'f series \<times> 'g) option" where
  "generate_series L g0 qpm_val ppm_val =
     (case (if gt_zero L qpm_val then to_int L qpm_val else Some 42) of
        None \<Rightarrow> None
      | Some a \<Rightarrow>
         (let r = jitter_loop L 12 qpm_val ppm_val (seed L a) [] [];
              qpm_values = (if gt_zero L qpm_val then set_last (fst r) qpm_val else fst r);
              ppm_values = (if gt_zero L ppm_val then set_last (fst (snd r)) ppm_val
                            else fst (snd r))
          in Some (\<lparr>months = MONTHS, series_values = qpm_values\<rparr>,
                   \<lparr>months = MONTHS, series_values = ppm_values\<rparr>, snd (snd r))))"

text \<open>The inner \<^verbatim>\<open>try\<close> of lines 397 to 430 on the texts of the two actual cells.\<close>

definition supplier_total :: "('f, 'g) pylib \<Rightarrow> 'g \<Rightarrow> string \<Rightarrow> string
    \<Rightarrow> ('f series \<times> 'f series \<times> 'g) option" where
  "supplier_total L g0 qpm_actual ppm_actual =
     (case cell_value L qpm_actual of None \<Rightarrow> None
      | Some qpm_val \<Rightarrow> (case cell_value L ppm_actual of None \<Rightarrow> None
         | Some ppm_val \<Rightarrow> generate_series L g0 qpm_val ppm_val))"

text \<open>A row of the table: the texts of its \<^verbatim>\<open>td\<close> cells and its \<^verbatim>\<open>id\<close>, \<^verbatim>\<open>''\<close> if it has none.\<close>

record row =
  cells :: "string list"
  row_id :: string

text \<open>
  One turn of the loop over the rows on the two series and the generator state. An
  exception of the inner \<^verbatim>\<open>try\<close> is caught and leaves all three as they were.
\<close>

definition perf_row :: "('f, 'g) pylib \<Rightarrow> row \<Rightarrow> 'f series \<times> 'f series \<times> 'g
    \<Rightarrow> 'f series \<times> 'f series \<times> 'g" where
  "perf_row L r st =
     (if length (cells r) \<ge> 15
      then (let brand_text = cells r ! 0
            in if brand_text = [] \<or> is_substr ''Brand/Consignee'' brand_text
                  \<or> ''&nbsp;'' = brand_text
               then st
               else if is_substr ''Supplier Total'' brand_text
                       \<or> is_substr ''ShowHeading'' (row_id r)
               then (case supplier_total L (snd (snd st)) (cells r ! 7) (cells r ! 3) of
                       None \<Rightarrow> st
                     | Some st' \<Rightarrow> st')
               else st)
      else st)"

section \<open>The record of one file: \<^verbatim>\<open>parse_supplier_html\<close>\<close>

text \<open>
  The document is given by what the lookups of the function find in it: the text of the
  two panels, the rating cells of each labelled row (\<^const>\<open>None\<close> when the label or its
  row is missing) and the rows of the table \<^verbatim>\<open>tblSales2\<close>. The identity fields of the
  record (id, name, logo, links) are computed first, never read again and raise nothing;
  they are left out, as is the console output. One reading of the clock serves the
  whole parse.
\<close>

record page =
  sem_panel :: "string option"
  quality_cert_cells :: "string list option"
  env_cert_cells :: "string list option"
  logistic_cells :: "string list option"
  reach_cells :: "string list option"
  csr_cells :: "string list option"
  audit_panel :: "string option"
  performance_rows :: "row list option"

record 'f supplier_record =
  audits :: "audit_entry list"
  metrics :: metrics
  qpm :: "'f series"
  ppm :: "'f series"

definition data_metrics :: metrics where
  "data_metrics = map_of
     [(''swIndex'', ''N/A''), (''swStatus'', ''N/A''), (''swDate'', ''N/A''),
      (''eeIndex'', ''N/A''), (''eeStatus'', ''N/A''), (''eeDate'', ''N/A''),
      (''sma'', ''N/A''), (''smaStatus'', ''N/A''), (''smaDate'', ''N/A''),
      (''csr'', ''N/A''), (''csrStatus'', ''N/A''), (''csrDate'', ''N/A''),
      (''saq'', ''N/A''), (''saqStatus'', ''N/A'')]"

text \<open>A list that a lookup may not find: the loop over it then runs over nothing.\<close>

definition or_empty :: "'a list option \<Rightarrow> 'a list" where
  "or_empty r = (case r of None \<Rightarrow> [] | Some cs \<Rightarrow> cs)"

text \<open>A loop over rating cells that appends entries and stops at the first exception.\<close>

fun for_cells :: "(string \<Rightarrow> py_error + audit_entry list) \<Rightarrow> string list \<Rightarrow> audit_entry list
    \<Rightarrow> py_error + audit_entry list" where
  "for_cells f [] acc = Inr acc"
| "for_cells f (c # cs) acc =
     (case f c of Inl e \<Rightarrow> Inl e | Inr new \<Rightarrow> for_cells f cs (acc @ new))"

text \<open>Lines 175 to 329: SEM, the two certificates, the logistic audit and REACH.\<close>

definition extract_audits :: "datetime \<Rightarrow> page \<Rightarrow> py_error + audit_entry list" where
  "extract_audits now pg =
     (let a0 = (case sem_panel pg of None \<Rightarrow> [] | Some sem_text \<Rightarrow> [sem_entry sem_text])
      in case for_cells (quality_cert_cell now) (or_empty (quality_cert_cells pg)) a0 of
           Inl e \<Rightarrow> Inl e
         | Inr a1 \<Rightarrow>
            (case for_cells (env_cert_cell now) (or_empty (env_cert_cells pg)) a1 of
               Inl e \<Rightarrow> Inl e
             | Inr a2 \<Rightarrow>
                Inr (a2 @ concat (map logistic_cell (or_empty (logistic_cells pg)))
                        @ concat (map reach_cell (or_empty (reach_cells pg))))))"

definition na_entry :: audit_entry where
  "na_entry = \<lparr>title = ''N/A'', status = ''N/A'', statusClass = ''status-na'', date = ''N/A''\<rparr>"

text \<open>Lines 437 to 443.\<close>

function fill_audits :: "audit_entry list \<Rightarrow> audit_entry list" where
  "fill_audits xs = (if length xs < 6 then fill_audits (xs @ [na_entry]) else xs)"
  by pat_completeness auto
termination
  by (relation "measure (\<lambda>xs. 6 - length xs)") auto

declare fill_audits.simps [simp del]

definition empty_series :: "'f series" where
  "empty_series = \<lparr>months = [], series_values = []\<rparr>"

text \<open>
  The entries and metrics before the padding (lines 175 to 367), then the whole
  function. The result is the record and the state the generator is left in; an
  exception that leaves the function is \<^const>\<open>Inl\<close>.
\<close>

definition extracted :: "datetime \<Rightarrow> page \<Rightarrow> py_error + (audit_entry list \<times> metrics)" where
  "extracted now pg = (case extract_audits now pg of
       Inl e \<Rightarrow> Inl e
     | Inr a \<Rightarrow> for_csr_cells (or_empty (csr_cells pg)) (a, data_metrics))"

definition parse_supplier_html :: "('f, 'g) pylib \<Rightarrow> datetime \<Rightarrow> 'g \<Rightarrow> page
    \<Rightarrow> py_error + ('f supplier_record \<times> 'g)" where
  "parse_supplier_html L now g0 pg = (case extracted now pg of
       Inl e \<Rightarrow> Inl e
     | Inr am \<Rightarrow> (case parse_quality_audits (audit_panel pg) of
          Inl e \<Rightarrow> Inl e
        | Inr quality_metrics \<Rightarrow>
           (let st = fold (perf_row L) (or_empty (performance_rows pg))
                       (empty_series, empty_series, g0)
            in Inr (\<lparr>audits = fill_audits (fst am), metrics = snd am ++ quality_metrics,
                      qpm = fst st, ppm = fst (snd st)\<rparr>, snd (snd st)))))"

section \<open>The collector: classifying a fetched page (\<^verbatim>\<open>scrape_volvo_scorecard\<close>, lines 157 to 206)\<close>

record scrape_result =
  html_content :: string
  page_title :: string
  current_url :: string
  supplier_id :: string
  timestamp :: string
  content_length :: nat
  key_elements_found :: nat

definition login_terms :: "string list" where
  "login_terms = [''login'', ''sign in'', ''authenticate'', ''logon'']"

definition denied_terms :: "string list" where
  "denied_terms = [''access denied'', ''permission denied'', ''not authorized'', ''forbidden'']"

definition key_elements :: "string list" where
  "key_elements = [''supplier spend'', ''dependency'', ''ppm'', ''qpm'', ''dispatch precision'']"

definition login_msg :: "string \<Rightarrow> string" where
  "login_msg sid = ''Login page detected for supplier '' @ sid @ '' - authentication required''"

definition denied_msg :: "string \<Rightarrow> string" where
  "denied_msg sid = ''Access denied for supplier '' @ sid"

definition not_found_msg :: "string \<Rightarrow> string" where
  "not_found_msg sid = ''Supplier '' @ sid @ '' not found''"

text \<open>
  The function once the browser has delivered the page: the supplier id as the f-strings
  print it, the URL, title and source read from the driver, and the reading of the clock
  for the time stamp. The result is the pair the source returns.
\<close>

definition scrape_volvo_scorecard :: "string \<Rightarrow> string \<Rightarrow> string \<Rightarrow> string \<Rightarrow> string
    \<Rightarrow> scrape_result option \<times> string option" where
  "scrape_volvo_scorecard sid url ttl html stamp =
     (let page_source_lower = lower html
      in if list_ex (\<lambda>t. is_substr t (lower ttl) \<or> is_substr t page_source_lower) login_terms
         then (None, Some (login_msg sid))
         else if list_ex (\<lambda>t. is_substr t page_source_lower) denied_terms
         then (None, Some (denied_msg sid))
         else if is_substr ''supplier not found'' page_source_lower
                 \<or> is_substr ''no supplier'' page_source_lower
         then (None, Some (not_found_msg sid))
         else (Some \<lparr>html_content = html, page_title = ttl, current_url = url,
                      supplier_id = sid, timestamp = stamp, content_length = length html,
                      key_elements_found =
                        length (filter (\<lambda>e. is_substr e page_source_lower) key_elements)\<rparr>,
               None))"

section \<open>The collector: supplier ids from the configuration (\<^verbatim>\<open>load_supplier_ids_from_toml\<close>)\<close>

text \<open>
  A PARMA code in the TOML file is an integer or a string. \<^verbatim>\<open>sorted\<close> compares with
  \<^verbatim>\<open><\<close>, which Python defines between two integers and between two strings (code point
  by code point) and which raises \<^verbatim>\<open>TypeError\<close> between an integer and a string.
\<close>

datatype toml_code = IntCode int | StrCode string

fun py_lt :: "toml_code \<Rightarrow> toml_code \<Rightarrow> py_error + bool" where
  "py_lt (IntCode a) (IntCode b) = Inr (a < b)"
| "py_lt (StrCode a) (StrCode b) = Inr (a < b)"
| "py_lt x y = Inl TypeError"

text \<open>
  \<^verbatim>\<open>sorted\<close> is a builtin. Every comparison sort of two or more values of both kinds
  compares an integer with a string at some point, and on values of one kind returns
  the ascending list; insertion sort stands for it.
\<close>

fun py_insert :: "toml_code \<Rightarrow> toml_code list \<Rightarrow> py_error + toml_code list" where
  "py_insert x [] = Inr [x]"
| "py_insert x (y # ys) = (case py_lt x y of
       Inl e \<Rightarrow> Inl e
     | Inr b \<Rightarrow> if b then Inr (x # y # ys)
               else (case py_insert x ys of Inl e \<Rightarrow> Inl e | Inr r \<Rightarrow> Inr (y # r)))"

fun py_sorted :: "toml_code list \<Rightarrow> py_error + toml_code list" where
  "py_sorted [] = Inr []"
| "py_sorted (x # xs) = (case py_sorted xs of Inl e \<Rightarrow> Inl e | Inr s \<Rightarrow> py_insert x s)"

text \<open>
  The argument is \<^verbatim>\<open>data.get('people')\<close> of the file read: each person is the value of
  \<^verbatim>\<open>person.get('parma_codes')\<close>, \<^const>\<open>None\<close> where the key is missing. \<^verbatim>\<open>set\<close> keeps one
  copy of each code. Every exception is caught and gives \<^verbatim>\<open>None\<close>.
\<close>

definition all_codes :: "toml_code list option list option \<Rightarrow> toml_code list" where
  "all_codes people = concat (map or_empty (or_empty people))"

definition load_supplier_ids_from_toml :: "toml_code list option list option
    \<Rightarrow> toml_code list option" where
  "load_supplier_ids_from_toml people =
     (case py_sorted (remdups (all_codes people)) of
        Inl e \<Rightarrow> None
      | Inr unique_codes \<Rightarrow> if unique_codes = [] then None else Some unique_codes)"

section \<open>Concrete inputs\<close>

text \<open>
  A small instance of the library parameters for concrete runs: numbers are integers,
  \<^verbatim>\<open>float\<close> reads the leading digits and rejects a text with two dots, the generator is
  a counter.
\<close>

definition sample_lib :: "(int, nat) pylib" where
  "sample_lib = \<lparr>
     to_float = (\<lambda>s. if length (filter (\<lambda>c. c = CHR ''.'') s) \<le> 1
                      then Some (int (digits_val (takeWhile is_digit s))) else None),
     py_zero = 0,
     gt_zero = (\<lambda>x. 0 < x),
     to_int = Some,
     py_add = (+),
     round1 = (\<lambda>x. x),
     max_zero = max 0,
     seed = (\<lambda>a. nat \<bar>a\<bar>),
     uniform = (\<lambda>a b g. (a + int (g mod nat (b - a)), Suc g))\<rparr>"

definition noon :: datetime where
  "noon = \<lparr>year = 2026, month = 11, day = 3, hour = 12, minute = 0, second = 0,
           microsecond = 0\<rparr>"

definition panel_text :: string where
  "panel_text = ''SMA / Criticality 1 Index Not Approved 40% Normal (A B , 2017-03-17)'' @
     ''Software Index Approved 81% Normal (Y M , 2016-12-01)'' @
     ''EE Index Approved 69% Normal (T H , 2017-03-29)''"

definition total_row :: row where
  "total_row = \<lparr>cells = [''Supplier Total'', ''0'', ''4'', ''3'', ''0'', ''0'', ''10'', ''12'',
      ''0'', ''0'', ''0'', ''0'', ''0'', ''0'', ''0''], row_id = []\<rparr>"

definition sample_page :: page where
  "sample_page = \<lparr>
     sem_panel = Some ''Approved 90% (2019-04-05)'',
     quality_cert_cells = Some [''IATF 16949 Registrated: 2018-01-01 Expire: 2021-01-01''],
     env_cert_cells = None,
     logistic_cells = None,
     reach_cells = None,
     csr_cells = Some [''75% Evaluated: 2021-05-06''],
     audit_panel = Some ''Software Index 81% (2016-12-01)'',
     performance_rows = Some [total_row]\<rparr>"

definition empty_page :: page where
  "empty_page = \<lparr>sem_panel = None, quality_cert_cells = None, env_cert_cells = None,
     logistic_cells = None, reach_cells = None, csr_cells = None, audit_panel = None,
     performance_rows = None\<rparr>"

definition two_csr_page :: page where
  "two_csr_page = empty_page\<lparr>csr_cells := Some [''85%'', ''40%'']\<rparr>"

definition bad_expiry_page :: page where
  "bad_expiry_page = empty_page\<lparr>quality_cert_cells := Some [''ISO 9001 Expire: 2020-13-45'']\<rparr>"

definition sample_people :: "toml_code list option list option" where
  "sample_people = Some [Some [IntCode 3, IntCode 1], None, Some [IntCode 3, IntCode 2]]"

definition mixed_people :: "toml_code list option list option" where
  "mixed_people = Some [Some [IntCode 1], Some [StrCode ''2'']]"

section \<open>Notions used in the statements\<close>

text \<open>The nine quality-metric fields of the record, and the keys the panel can write.\<close>

definition quality_keys :: "string list" where
  "quality_keys = [''swIndex'', ''swStatus'', ''swDate'', ''eeIndex'', ''eeStatus'', ''eeDate'',
     ''sma'', ''smaStatus'', ''smaDate'']"

text \<open>A rating cell whose \<^verbatim>\<open>Expire:\<close> date, if it has one, is a calendar date.\<close>

definition expiry_ok :: "string \<Rightarrow> bool" where
  "expiry_ok cert_text = (case search_labelled_date ''Expire:'' cert_text of
       None \<Rightarrow> True
     | Some ds \<Rightarrow> \<not> isl (strptime_ymd ds))"

text \<open>A CSR cell whose percentage, if it has one, is within the digit limit of \<^verbatim>\<open>int\<close>.\<close>

definition csr_ok :: "string \<Rightarrow> bool" where
  "csr_ok csr_text = (case search_perc csr_text of
       None \<Rightarrow> True
     | Some ds \<Rightarrow> length ds \<le> int_max_str_digits)"

text \<open>
  A row of the performance table that the loop takes as the supplier total and whose
  two actual values are read without an exception, so that the series are generated.
\<close>

definition processed_total :: "('f, 'g) pylib \<Rightarrow> row \<Rightarrow> bool" where
  "processed_total L r =
     (length (cells r) \<ge> 15 \<and> cells r ! 0 \<noteq> [] \<and>
      \<not> is_substr ''Brand/Consignee'' (cells r ! 0) \<and> cells r ! 0 \<noteq> ''&nbsp;'' \<and>
      (is_substr ''Supplier Total'' (cells r ! 0) \<or> is_substr ''ShowHeading'' (row_id r)) \<and>
      (case cell_value L (cells r ! 7) of
         None \<Rightarrow> False
       | Some qpm_val \<Rightarrow> cell_value L (cells r ! 3) \<noteq> None \<and>
                        (gt_zero L qpm_val \<longrightarrow> to_int L qpm_val \<noteq> None)))"

text \<open>The calendar day of a datetime, and whether its time of day is after 00:00:00.\<close>

definition date_key :: "datetime \<Rightarrow> nat list" where
  "date_key t = [year t, month t, day t]"

definition past_midnight :: "datetime \<Rightarrow> bool" where
  "past_midnight t = (0 < hour t \<or> 0 < minute t \<or> 0 < second t \<or> 0 < microsecond t)"

text \<open>A series as the record holds it: still empty, or twelve values under the twelve labels.\<close>

definition series_shape :: "'f series \<Rightarrow> bool" where
  "series_shape s = (months s = [] \<and> series_values s = []
     \<or> months s = MONTHS \<and> length (series_values s) = 12)"

text \<open>A series that holds twelve values under the twelve labels.\<close>

definition filled :: "'f series \<Rightarrow> bool" where
  "filled s = (months s = MONTHS \<and> length (series_values s) = 12)"

text \<open>The three marker classes of a fetched page, on its title and source.\<close>

definition login_marked :: "string \<Rightarrow> string \<Rightarrow> bool" where
  "login_marked ttl html =
     (\<exists>t \<in> set login_terms. is_substr t (lower ttl) \<or> is_substr t (lower html))"

definition denied_marked :: "string \<Rightarrow> bool" where
  "denied_marked html = (\<exists>t \<in> set denied_terms. is_substr t (lower html))"

definition not_found_marked :: "string \<Rightarrow> bool" where
  "not_found_marked html =
     (is_substr ''supplier not found'' (lower html) \<or> is_substr ''no supplier'' (lower html))"

text \<open>Codes of one kind, and the order \<^verbatim>\<open><\<close> gives on them.\<close>

fun is_int_code :: "toml_code \<Rightarrow> bool" where
  "is_int_code (IntCode n) = True"
| "is_int_code (StrCode s) = False"

fun code_less :: "toml_code \<Rightarrow> toml_code \<Rightarrow> bool" where
  "code_less (IntCode a) (IntCode b) = (a < b)"
| "code_less (StrCode a) (StrCode b) = (a < b)"
| "code_less x y = False"

text \<open>Insertion into an ascending list of codes of one kind, and the sort it gives.\<close>

fun code_insert :: "toml_code \<Rightarrow> toml_code list \<Rightarrow> toml_code list" where
  "code_insert x [] = [x]"
| "code_insert x (y # ys) = (if code_less x y then x # y # ys else y # code_insert x ys)"

definition code_sort :: "toml_code list \<Rightarrow> toml_code list" where
  "code_sort cs = foldr code_insert cs []"

definition one_kind :: "toml_code list \<Rightarrow> bool" where
  "one_kind cs = (list_all is_int_code cs \<or> list_all (\<lambda>c. \<not> is_int_code c) cs)"

section \<open>Auxiliary facts\<close>

lemma fill_audits_ge: "6 \<le> length xs \<Longrightarrow> fill_audits xs = xs"
  by (simp add: fill_audits.simps)

lemma fill_audits_pad:
  "length xs \<le> 6 \<Longrightarrow> fill_audits xs = xs @ replicate (6 - length xs) na_entry"
proof (induction xs rule: fill_audits.induct)
  case (1 xs)
  show ?case
  proof (cases "length xs < 6")
    case True
    then have "fill_audits xs = fill_audits (xs @ [na_entry])"
      by (subst fill_audits.simps) simp
    also have "\<dots> = (xs @ [na_entry]) @ replicate (6 - length (xs @ [na_entry])) na_entry"
      using True by (intro "1.IH") auto
    also have "\<dots> = xs @ replicate (Suc (5 - length xs)) na_entry"
      by (simp add: replicate_append_same)
    also have "Suc (5 - length xs) = 6 - length xs"
      using True by arith
    finally show ?thesis .
  next
    case False
    with "1.prems" show ?thesis by (simp add: fill_audits_ge)
  qed
qed

lemma parse_supplier_html_Inr:
  assumes "parse_supplier_html L now g0 pg = Inr (r, g')"
  obtains am qm where "extracted now pg = Inr am"
    and "parse_quality_audits (audit_panel pg) = Inr qm"
    and "audits r = fill_audits (fst am)"
    and "metrics r = snd am ++ qm"
    and "qpm r = fst (fold (perf_row L) (or_empty (performance_rows pg)) (empty_series, empty_series, g0))"
    and "ppm r = fst (snd (fold (perf_row L) (or_empty (performance_rows pg)) (empty_series, empty_series, g0)))"
  using assms unfolding parse_supplier_html_def
  by (auto simp: Let_def split: sum.splits)

lemma segment_fields_other:
  "k \<noteq> kp \<Longrightarrow> k \<noteq> ks \<Longrightarrow> k \<noteq> kd \<Longrightarrow> segment_fields kp ks kd seg m k = m k"
  by (simp add: segment_fields_def Let_def split: option.splits)

lemma printed_Inr: "printed ks m = Inr m' \<Longrightarrow> m' = m"
  by (auto simp: printed_def split: list.splits)

lemma ee_fields_other:
  "ee_fields seg m = Inr m' \<Longrightarrow> k \<noteq> ''eeIndex'' \<Longrightarrow> k \<noteq> ''eeStatus'' \<Longrightarrow> k \<noteq> ''eeDate''
   \<Longrightarrow> m' k = m k"
  by (auto simp: ee_fields_def Let_def getitem_def split: option.splits if_splits sum.splits)

lemma sma_block_other:
  "sma_block text m = Inr m' \<Longrightarrow> k \<noteq> ''sma'' \<Longrightarrow> k \<noteq> ''smaStatus'' \<Longrightarrow> k \<noteq> ''smaDate''
   \<Longrightarrow> m' k = m k"
  by (auto simp: sma_block_def segment_fields_other split: option.splits dest!: printed_Inr)

lemma sw_block_other:
  "sw_block text m = Inr m' \<Longrightarrow> k \<noteq> ''swIndex'' \<Longrightarrow> k \<noteq> ''swStatus'' \<Longrightarrow> k \<noteq> ''swDate''
   \<Longrightarrow> m' k = m k"
  by (auto simp: sw_block_def segment_fields_other split: option.splits dest!: printed_Inr)

lemma ee_block_other:
  "ee_block text m = Inr m' \<Longrightarrow> k \<noteq> ''eeIndex'' \<Longrightarrow> k \<noteq> ''eeStatus'' \<Longrightarrow> k \<noteq> ''eeDate''
   \<Longrightarrow> m' k = m k"
  by (auto simp: ee_block_def split: option.splits sum.splits dest!: printed_Inr
        dest: ee_fields_other)

lemma quality_untouched:
  assumes "parse_quality_audits p = Inr qm" and "k \<notin> set quality_keys"
  shows "qm k = quality_defaults k"
proof (cases p)
  case None
  with assms show ?thesis by (simp add: parse_quality_audits_def)
next
  case (Some panel)
  with assms(1) obtain m1 m2 where b: "sma_block panel quality_defaults = Inr m1"
      "sw_block panel m1 = Inr m2" "ee_block panel m2 = Inr qm"
    by (auto simp: parse_quality_audits_def split: sum.splits)
  from assms(2) have k: "k \<noteq> ''sma''" "k \<noteq> ''smaStatus''" "k \<noteq> ''smaDate''"
     "k \<noteq> ''swIndex''" "k \<noteq> ''swStatus''" "k \<noteq> ''swDate''"
     "k \<noteq> ''eeIndex''" "k \<noteq> ''eeStatus''" "k \<noteq> ''eeDate''"
    by (auto simp: quality_keys_def)
  have "qm k = m2 k" using ee_block_other[OF b(3)] k by blast
  also have "\<dots> = m1 k" using sw_block_other[OF b(2)] k by blast
  also have "\<dots> = quality_defaults k" using sma_block_other[OF b(1)] k by blast
  finally show ?thesis .
qed

lemma csr_cell_other:
  "csr_cell c am = Inr am' \<Longrightarrow> k \<noteq> ''csr'' \<Longrightarrow> k \<noteq> ''csrStatus'' \<Longrightarrow> k \<noteq> ''csrDate''
   \<Longrightarrow> snd am' k = snd am k"
  by (auto simp: csr_cell_def Let_def split: option.splits sum.splits)

lemma for_csr_cells_other:
  "for_csr_cells cs am = Inr am' \<Longrightarrow> k \<noteq> ''csr'' \<Longrightarrow> k \<noteq> ''csrStatus'' \<Longrightarrow> k \<noteq> ''csrDate''
   \<Longrightarrow> snd am' k = snd am k"
proof (induction cs arbitrary: am)
  case Nil
  then show ?case by simp
next
  case (Cons c cs)
  from Cons.prems(1) obtain am1 where c: "csr_cell c am = Inr am1"
    and r: "for_csr_cells cs am1 = Inr am'"
    by (auto split: sum.splits)
  have "snd am' k = snd am1 k" using r Cons.prems(2-4) by (rule Cons.IH)
  also have "\<dots> = snd am k" using c Cons.prems(2-4) by (rule csr_cell_other)
  finally show ?case .
qed

lemma extracted_other:
  "extracted now pg = Inr am \<Longrightarrow> k \<noteq> ''csr'' \<Longrightarrow> k \<noteq> ''csrStatus'' \<Longrightarrow> k \<noteq> ''csrDate''
   \<Longrightarrow> snd am k = data_metrics k"
proof -
  assume e: "extracted now pg = Inr am"
    and k: "k \<noteq> ''csr''" "k \<noteq> ''csrStatus''" "k \<noteq> ''csrDate''"
  from e obtain a where "for_csr_cells (or_empty (csr_cells pg)) (a, data_metrics) = Inr am"
    by (auto simp: extracted_def split: sum.splits)
  from for_csr_cells_other[OF this k] show ?thesis by simp
qed

lemma not_isl_pair: "\<not> isl x \<Longrightarrow> \<exists>r g. x = Inr (r, g)"
  by (cases x) auto

lemma sample_page_parses: "\<not> isl (parse_supplier_html sample_lib noon 0 sample_page)"
  by code_simp

lemma sample_page_extracted:
  "\<not> isl (extracted noon sample_page) \<and> length (fst (projr (extracted noon sample_page))) = 3"
  by code_simp

lemma set_last_length: "length (set_last xs v) = length xs"
  by (simp add: set_last_def)

lemma jitter_loop_length:
  "length (fst (jitter_loop L k q p g qs ps)) = length qs + k \<and>
   length (fst (snd (jitter_loop L k q p g qs ps))) = length ps + k"
  by (induction k arbitrary: g qs ps) (simp_all add: Let_def)

lemma generate_series_shape:
  assumes "generate_series L g q p = Some st"
  shows "months (fst st) = MONTHS \<and> length (series_values (fst st)) = 12 \<and>
         months (fst (snd st)) = MONTHS \<and> length (series_values (fst (snd st))) = 12"
  using assms jitter_loop_length[of L 12 q p _ "[]" "[]"]
  by (auto simp: generate_series_def Let_def set_last_length split: option.splits if_splits)

section \<open>The claims\<close>

text \<open>
  C6. When fewer than six audit entries are extracted from a file, the audits of the
  record are the extracted entries in their order, followed by placeholder entries
  (title, status and date \<^verbatim>\<open>N/A\<close>, class \<^verbatim>\<open>status-na\<close>) up to a length of exactly six.
\<close>

theorem audits_padded_to_six:
  assumes "parse_supplier_html L now g0 pg = Inr (r, g')"
  shows "\<exists>am. extracted now pg = Inr am \<and>
           (length (fst am) < 6 \<longrightarrow>
              audits r = fst am @ replicate (6 - length (fst am)) na_entry \<and>
              length (audits r) = 6 \<and> take (length (fst am)) (audits r) = fst am)"
proof -
  from assms obtain am where am: "extracted now pg = Inr am" "audits r = fill_audits (fst am)"
    by (rule parse_supplier_html_Inr)
  show ?thesis
  proof (intro exI conjI impI)
    show "extracted now pg = Inr am" by fact
  next
    assume "length (fst am) < 6"
    then show "audits r = fst am @ replicate (6 - length (fst am)) na_entry"
      using am(2) by (simp add: fill_audits_pad)
    then show "length (audits r) = 6" using \<open>length (fst am) < 6\<close> by simp
    show "take (length (fst am)) (audits r) = fst am"
      using \<open>audits r = fst am @ replicate (6 - length (fst am)) na_entry\<close> by simp
  qed
qed

theorem audits_padded_to_six_witness:
  "length (audits (fst (projr (parse_supplier_html sample_lib noon 0 sample_page)))) = 6 \<and>
   drop 3 (audits (fst (projr (parse_supplier_html sample_lib noon 0 sample_page))))
     = [na_entry, na_entry, na_entry]"
proof -
  obtain r g where p: "parse_supplier_html sample_lib noon 0 sample_page = Inr (r, g)"
    using not_isl_pair[OF sample_page_parses] by blast
  from audits_padded_to_six[OF p] obtain am where
    am: "extracted noon sample_page = Inr am"
    and pad: "length (fst am) < 6 \<longrightarrow>
              audits r = fst am @ replicate (6 - length (fst am)) na_entry \<and>
              length (audits r) = 6 \<and> take (length (fst am)) (audits r) = fst am"
    by blast
  from sample_page_extracted am have len: "length (fst am) = 3" by simp
  with pad have "audits r = fst am @ replicate 3 na_entry" by simp
  with len show ?thesis by (simp add: p numeral_3_eq_3)
qed

lemma sw_block_date:
  assumes "sw_block panel m = Inr m'" "sw_match panel = Some seg" "search_date seg = Some d"
  shows "m' ''swDate'' = Some d"
  using assms
  by (auto simp: sw_block_def segment_fields_def Let_def dest!: printed_Inr)

lemma quality_sw_date:
  assumes "parse_quality_audits (Some panel) = Inr qm" "sw_match panel = Some seg"
    "search_date seg = Some d"
  shows "qm ''swDate'' = Some d"
proof -
  from assms(1) obtain m1 m2 where b: "sma_block panel quality_defaults = Inr m1"
      "sw_block panel m1 = Inr m2" "ee_block panel m2 = Inr qm"
    by (auto simp: parse_quality_audits_def split: sum.splits)
  have "qm ''swDate'' = m2 ''swDate''" using ee_block_other[OF b(3)] by simp
  with sw_block_date[OF b(2) assms(2,3)] show ?thesis by simp
qed

text \<open>
  C9. The metrics of every output record hold the key \<^verbatim>\<open>'sw Date'\<close> (with a space) with
  the value \<^verbatim>\<open>N/A\<close>: the quality-audit defaults declare \<^verbatim>\<open>'sw Date'\<close> and not \<^verbatim>\<open>'swDate'\<close>,
  a software-index date that is found is written under \<^verbatim>\<open>'swDate'\<close>, and after the
  update of the metrics both keys are present.
\<close>

theorem sw_date_key_never_written:
  assumes "parse_supplier_html L now g0 pg = Inr (r, g')"
  shows "quality_defaults ''sw Date'' = Some ''N/A'' \<and> quality_defaults ''swDate'' = None \<and>
         metrics r ''sw Date'' = Some ''N/A'' \<and>
         ''sw Date'' \<in> dom (metrics r) \<and> ''swDate'' \<in> dom (metrics r) \<and>
         (\<forall>panel seg d. audit_panel pg = Some panel \<and> sw_match panel = Some seg \<and>
             search_date seg = Some d \<longrightarrow> metrics r ''swDate'' = Some d)"
proof -
  from assms obtain am qm where am: "extracted now pg = Inr am"
    and qm: "parse_quality_audits (audit_panel pg) = Inr qm"
    and m: "metrics r = snd am ++ qm"
    by (rule parse_supplier_html_Inr)
  have d1: "quality_defaults ''sw Date'' = Some ''N/A''"
    and d2: "quality_defaults ''swDate'' = None"
    by (simp_all add: quality_defaults_def)
  have "qm ''sw Date'' = quality_defaults ''sw Date''"
    using qm by (rule quality_untouched) (simp add: quality_keys_def)
  with d1 m have s1: "metrics r ''sw Date'' = Some ''N/A''" by simp
  have "snd am ''swDate'' = data_metrics ''swDate''"
    using am by (rule extracted_other) simp_all
  then have "snd am ''swDate'' = Some ''N/A''" by (simp add: data_metrics_def)
  with m have s2: "''swDate'' \<in> dom (metrics r)" by (auto simp: map_add_def split: option.splits)
  have s3: "metrics r ''swDate'' = Some d"
    if "audit_panel pg = Some panel" "sw_match panel = Some seg" "search_date seg = Some d"
    for panel seg d
    using quality_sw_date[of panel qm seg d] qm that m by simp
  from d1 d2 s1 s2 s3 show ?thesis by blast
qed

lemma sample_page_sw:
  "sw_match ''Software Index 81% (2016-12-01)'' = Some '' 81% (2016-12-01)'' \<and>
   search_date '' 81% (2016-12-01)'' = Some ''2016-12-01''"
  by code_simp

theorem sw_date_key_never_written_witness:
  "metrics (fst (projr (parse_supplier_html sample_lib noon 0 sample_page))) ''sw Date''
     = Some ''N/A'' \<and>
   metrics (fst (projr (parse_supplier_html sample_lib noon 0 sample_page))) ''swDate''
     = Some ''2016-12-01''"
proof -
  obtain r g where p: "parse_supplier_html sample_lib noon 0 sample_page = Inr (r, g)"
    using not_isl_pair[OF sample_page_parses] by blast
  have "audit_panel sample_page = Some ''Software Index 81% (2016-12-01)''"
    by (simp add: sample_page_def)
  with sw_date_key_never_written[OF p] sample_page_sw show ?thesis
    by (simp add: p)
qed

lemma jitter_loop_qpm_indep:
  "fst (jitter_loop L k q p g qs ps) = fst (jitter_loop L k q p' g qs ps') \<and>
   snd (snd (jitter_loop L k q p g qs ps)) = snd (snd (jitter_loop L k q p' g qs ps'))"
  by (induction k arbitrary: g qs ps ps') (simp_all add: Let_def)

lemma last_set_last: "xs \<noteq> [] \<Longrightarrow> last (set_last xs v) = v"
  by (simp add: set_last_def last_list_update)

lemma nth_set_last: "length xs = 12 \<Longrightarrow> set_last xs v ! 11 = v"
  by (simp add: set_last_def)

text \<open>
  C2. For a positive actual QPM value \<open>v\<close> whose integer value is \<open>n\<close>, read from the
  Supplier Total row, the generator is seeded with \<open>n\<close> and the series are generated:
  the result does not depend on the state the generator was in, the QPM values and the
  final state do not depend on the PPM value, both series carry the labels Jan to Dec
  and twelve values, the twelfth QPM value is \<open>v\<close>, and the twelfth PPM value is the
  actual PPM value when that is positive.
\<close>

theorem series_seeded_and_final_value:
  assumes "cell_value L qpm_actual = Some v" and "cell_value L ppm_actual = Some p"
    and "gt_zero L v" and "to_int L v = Some n"
  shows "\<exists>qs ps g'. supplier_total L g0 qpm_actual ppm_actual = Some (qs, ps, g') \<and>
           supplier_total L g1 qpm_actual ppm_actual = Some (qs, ps, g') \<and>
           months qs = MONTHS \<and> months ps = MONTHS \<and>
           length (series_values qs) = 12 \<and> length (series_values ps) = 12 \<and>
           series_values qs = set_last (fst (jitter_loop L 12 v p (seed L n) [] [])) v \<and>
           series_values qs ! 11 = v \<and> last (series_values qs) = v \<and>
           (gt_zero L p \<longrightarrow> series_values ps ! 11 = p \<and> last (series_values ps) = p) \<and>
           (\<forall>p'. \<exists>ps'. generate_series L g0 v p' = Some (qs, ps', g'))"
proof -
  let ?r = "jitter_loop L 12 v p (seed L n) [] []"
  let ?qs = "\<lparr>months = MONTHS, series_values = set_last (fst ?r) v\<rparr>"
  let ?pv = "if gt_zero L p then set_last (fst (snd ?r)) p else fst (snd ?r)"
  let ?ps = "\<lparr>months = MONTHS, series_values = ?pv\<rparr>"
  have gen: "generate_series L g v p = Some (?qs, ?ps, snd (snd ?r))" for g
    using assms(3,4) by (simp add: generate_series_def Let_def)
  have st: "supplier_total L g qpm_actual ppm_actual = Some (?qs, ?ps, snd (snd ?r))" for g
    using assms(1,2) gen by (simp add: supplier_total_def)
  have len: "length (fst ?r) = 12" "length (fst (snd ?r)) = 12"
    using jitter_loop_length[of L 12 v p "seed L n" "[]" "[]"] by simp_all
  then have ne: "fst ?r \<noteq> []" "fst (snd ?r) \<noteq> []" by auto
  have indep: "\<exists>ps'. generate_series L g0 v p' = Some (?qs, ps', snd (snd ?r))" for p'
    using assms(3,4) jitter_loop_qpm_indep[of L 12 v p "seed L n" "[]" "[]" p' "[]"]
    by (simp add: generate_series_def Let_def)
  show ?thesis
    using st[of g0] st[of g1] len ne indep
    by (simp add: set_last_length last_set_last nth_set_last)
qed

lemma sample_cells:
  "cell_value sample_lib ''12'' = Some 12 \<and> cell_value sample_lib ''3'' = Some 3"
  by code_simp

theorem series_seeded_and_final_value_witness:
  "supplier_total sample_lib 0 ''12'' ''3'' = supplier_total sample_lib 7 ''12'' ''3'' \<and>
   series_values (fst (the (supplier_total sample_lib 0 ''12'' ''3''))) ! 11 = 12 \<and>
   series_values (fst (snd (the (supplier_total sample_lib 0 ''12'' ''3'')))) ! 11 = 3"
proof -
  have h: "gt_zero sample_lib 12" "to_int sample_lib 12 = Some 12"
    by (simp_all add: sample_lib_def)
  from series_seeded_and_final_value[OF conjunct1[OF sample_cells] conjunct2[OF sample_cells] h,
      of 0 7]
  obtain qs ps g' where "supplier_total sample_lib 0 ''12'' ''3'' = Some (qs, ps, g')"
    "supplier_total sample_lib 7 ''12'' ''3'' = Some (qs, ps, g')"
    "series_values qs ! 11 = 12" "gt_zero sample_lib 3 \<longrightarrow> series_values ps ! 11 = 3"
    by blast
  moreover have "gt_zero sample_lib 3" by (simp add: sample_lib_def)
  ultimately show ?thesis by simp
qed

lemma strptime_midnight:
  assumes "strptime_ymd ds = Inr d"
  shows "hour d = 0 \<and> minute d = 0 \<and> second d = 0 \<and> microsecond d = 0 \<and>
         valid_date (year d) (month d) (day d)"
  using assms by (auto simp: strptime_ymd_def Let_def split: if_splits)

lemma dt_lt_midnight:
  assumes "hour d = 0" "minute d = 0" "second d = 0" "microsecond d = 0"
  shows "dt_lt d now \<longleftrightarrow>
           date_key d < date_key now \<or> date_key d = date_key now \<and> past_midnight now"
  using assms by (auto simp: dt_lt_def dt_key_def date_key_def past_midnight_def)

text \<open>
  C3. For a rating cell of the Quality Certification row that contains \<^verbatim>\<open>IATF\<close> or
  \<^verbatim>\<open>ISO\<close>, or of the Environmental Certification row that contains \<^verbatim>\<open>ISO 14001\<close>, whose
  first \<^verbatim>\<open>Expire:\<close> date is a calendar date, the audit entry has the status \<^verbatim>\<open>Expired\<close>
  and the class \<^verbatim>\<open>status-expired\<close> exactly when midnight of the expiry date is before the
  reading of the clock: when the expiry date is earlier than the current date, and also
  when it is the current date and the time is past 00:00:00. Otherwise the status is
  \<^verbatim>\<open>Approved\<close> with the class \<^verbatim>\<open>status-approved\<close>. No keyword of the cell text has a part
  in this.
\<close>

theorem certificate_expiry_status:
  assumes "search_labelled_date ''Expire:'' cert_text = Some ds"
    and "strptime_ymd ds = Inr d"
    and "expired = (date_key d < date_key now \<or> date_key d = date_key now \<and> past_midnight now)"
  shows "(is_substr ''IATF'' cert_text \<or> is_substr ''ISO'' cert_text \<longrightarrow>
            quality_cert_cell now cert_text =
              Inr [\<lparr>title = ''Quality Cert'',
                    status = (if expired then ''Expired'' else ''Approved''),
                    statusClass = (if expired then ''status-expired'' else ''status-approved''),
                    date = ''Exp: '' @ ds\<rparr>]) \<and>
         (is_substr ''ISO 14001'' cert_text \<longrightarrow>
            env_cert_cell now cert_text =
              Inr [\<lparr>title = ''ISO 14001'',
                    status = (if expired then ''Expired'' else ''Approved''),
                    statusClass = (if expired then ''status-expired'' else ''status-approved''),
                    date = ''Exp: '' @ ds\<rparr>]) \<and>
         (date_key d < date_key now \<longrightarrow> expired)"
proof -
  from strptime_midnight[OF assms(2)] have "dt_lt d now = expired"
    unfolding assms(3) by (intro dt_lt_midnight) simp_all
  then have "cert_entry ttl now cert_text =
      Inr [\<lparr>title = ttl, status = (if expired then ''Expired'' else ''Approved''),
            statusClass = (if expired then ''status-expired'' else ''status-approved''),
            date = ''Exp: '' @ ds\<rparr>]" for ttl
    using assms(1,2) by (simp add: cert_entry_def cert_status_def Let_def)
  then show ?thesis
    by (simp add: quality_cert_cell_def env_cert_cell_def assms(3))
qed

lemma sample_cert:
  "search_labelled_date ''Expire:'' ''ISO 14001 Approved Expire: 2020-01-01'' = Some ''2020-01-01''
   \<and> \<not> isl (strptime_ymd ''2020-01-01'')
   \<and> date_key (projr (strptime_ymd ''2020-01-01'')) = [2020, 1, 1]
   \<and> is_substr ''ISO 14001'' ''ISO 14001 Approved Expire: 2020-01-01''
   \<and> is_substr ''ISO'' ''ISO 14001 Approved Expire: 2020-01-01''"
  by code_simp

theorem certificate_expiry_status_witness:
  "quality_cert_cell noon ''ISO 14001 Approved Expire: 2020-01-01'' =
     Inr [\<lparr>title = ''Quality Cert'', status = ''Expired'', statusClass = ''status-expired'',
           date = ''Exp: 2020-01-01''\<rparr>] \<and>
   env_cert_cell noon ''ISO 14001 Approved Expire: 2020-01-01'' =
     Inr [\<lparr>title = ''ISO 14001'', status = ''Expired'', statusClass = ''status-expired'',
           date = ''Exp: 2020-01-01''\<rparr>]"
proof -
  obtain d where d: "strptime_ymd ''2020-01-01'' = Inr d"
    using sample_cert by (cases "strptime_ymd ''2020-01-01''") auto
  with sample_cert have k: "date_key d = [2020, 1, 1]" by simp
  have e: "True = (date_key d < date_key noon \<or> date_key d = date_key noon \<and> past_midnight noon)"
    using k by (simp add: date_key_def noon_def)
  from certificate_expiry_status[OF conjunct1[OF sample_cert] d e] sample_cert
  show ?thesis by simp
qed

theorem expiry_on_current_date_is_expired:
  "quality_cert_cell noon ''ISO 9001 Expire: 2026-11-03'' =
     Inr [\<lparr>title = ''Quality Cert'', status = ''Expired'', statusClass = ''status-expired'',
           date = ''Exp: 2026-11-03''\<rparr>] \<and>
   date_key noon = [2026, 11, 3]"
  by code_simp

lemma for_cells_total:
  "(\<And>c. c \<in> set cs \<Longrightarrow> \<not> isl (f c)) \<Longrightarrow> \<not> isl (for_cells f cs acc)"
proof (induction cs arbitrary: acc)
  case Nil
  show ?case by simp
next
  case (Cons c cs)
  from Cons.prems[of c] obtain new where "f c = Inr new" by (cases "f c") auto
  moreover have "\<not> isl (for_cells f cs (acc @ new))"
    by (rule Cons.IH) (simp add: Cons.prems)
  ultimately show ?case by simp
qed

lemma cert_entry_total: "expiry_ok c \<Longrightarrow> \<not> isl (cert_entry ttl now c)"
  by (auto simp: expiry_ok_def cert_entry_def cert_status_def Let_def
      split: option.splits sum.splits)

lemma extract_audits_total:
  assumes "\<forall>c \<in> set (or_empty (quality_cert_cells pg)) \<union> set (or_empty (env_cert_cells pg)).
             expiry_ok c"
  shows "\<not> isl (extract_audits now pg)"
proof -
  have q: "\<not> isl (for_cells (quality_cert_cell now) (or_empty (quality_cert_cells pg)) a)" for a
    using assms by (intro for_cells_total) (simp add: quality_cert_cell_def cert_entry_total)
  have e: "\<not> isl (for_cells (env_cert_cell now) (or_empty (env_cert_cells pg)) a)" for a
    using assms by (intro for_cells_total) (simp add: env_cert_cell_def cert_entry_total)
  show ?thesis
    unfolding extract_audits_def Let_def
    using q e by (auto split: sum.splits simp: isl_def)
qed

lemma csr_cell_total: "csr_ok c \<Longrightarrow> \<not> isl (csr_cell c am)"
  by (auto simp: csr_ok_def csr_cell_def py_int_def Let_def split: option.splits)

lemma for_csr_cells_total:
  "(\<And>c. c \<in> set cs \<Longrightarrow> csr_ok c) \<Longrightarrow> \<not> isl (for_csr_cells cs am)"
proof (induction cs arbitrary: am)
  case Nil
  show ?case by simp
next
  case (Cons c cs)
  have "\<not> isl (csr_cell c am)" by (rule csr_cell_total) (simp add: Cons.prems)
  then obtain am1 where "csr_cell c am = Inr am1" by (cases "csr_cell c am") auto
  moreover have "\<not> isl (for_csr_cells cs am1)"
    by (rule Cons.IH) (simp add: Cons.prems)
  ultimately show ?case by simp
qed

lemma quality_keys_default:
  "k \<in> set quality_keys \<Longrightarrow> k \<noteq> ''swDate'' \<Longrightarrow> quality_defaults k = Some ''N/A''"
  by (auto simp: quality_keys_def quality_defaults_def)

text \<open>
  C5. For a document without the div \<^verbatim>\<open>IndexAuditPanel\<close>, the quality-audit parse raises
  nothing and returns its defaults; every record that \<^verbatim>\<open>parse_supplier_html\<close> returns
  has \<^verbatim>\<open>N/A\<close> in all nine quality-metric fields; and it returns a record whenever every
  rating cell of the two certification rows has no \<^verbatim>\<open>Expire:\<close> date or one that is a
  calendar date, and every rating cell of the Sustainability Self-Assessment row has no
  percentage or one of at most 4300 digits.
\<close>

theorem missing_audit_panel_placeholders:
  assumes "audit_panel pg = None"
  shows "parse_quality_audits (audit_panel pg) = Inr quality_defaults \<and>
         (\<forall>r g'. parse_supplier_html L now g0 pg = Inr (r, g') \<longrightarrow>
            (\<forall>k \<in> set quality_keys. metrics r k = Some ''N/A'')) \<and>
         ((\<forall>c \<in> set (or_empty (quality_cert_cells pg)) \<union> set (or_empty (env_cert_cells pg)).
             expiry_ok c) \<and>
          (\<forall>c \<in> set (or_empty (csr_cells pg)). csr_ok c) \<longrightarrow>
          (\<exists>r g'. parse_supplier_html L now g0 pg = Inr (r, g')))"
proof (intro conjI allI impI ballI)
  show q: "parse_quality_audits (audit_panel pg) = Inr quality_defaults"
    using assms by (simp add: parse_quality_audits_def)
  {
    fix r g' k
    assume p: "parse_supplier_html L now g0 pg = Inr (r, g')" and k: "k \<in> set quality_keys"
    from p obtain am qm where am: "extracted now pg = Inr am"
      and qm: "parse_quality_audits (audit_panel pg) = Inr qm"
      and m: "metrics r = snd am ++ qm"
      by (rule parse_supplier_html_Inr)
    from q qm have qd: "qm = quality_defaults" by simp
    show "metrics r k = Some ''N/A''"
    proof (cases "k = ''swDate''")
      case True
      have "snd am ''swDate'' = data_metrics ''swDate''"
        using am by (rule extracted_other) simp_all
      then show ?thesis
        using True m qd by (simp add: data_metrics_def quality_defaults_def map_add_def)
    next
      case False
      with k have "quality_defaults k = Some ''N/A''" by (rule quality_keys_default)
      with m qd show ?thesis by simp
    qed
  }
  {
    assume h: "(\<forall>c \<in> set (or_empty (quality_cert_cells pg)) \<union> set (or_empty (env_cert_cells pg)).
             expiry_ok c) \<and> (\<forall>c \<in> set (or_empty (csr_cells pg)). csr_ok c)"
    then have "\<not> isl (extract_audits now pg)" by (intro extract_audits_total) blast
    then obtain a where a: "extract_audits now pg = Inr a"
      by (cases "extract_audits now pg") auto
    have "\<not> isl (for_csr_cells (or_empty (csr_cells pg)) (a, data_metrics))"
      using h by (intro for_csr_cells_total) blast
    then obtain am where "for_csr_cells (or_empty (csr_cells pg)) (a, data_metrics) = Inr am"
      by (cases "for_csr_cells (or_empty (csr_cells pg)) (a, data_metrics)") auto
    with a show "\<exists>r g'. parse_supplier_html L now g0 pg = Inr (r, g')"
      using q by (simp add: parse_supplier_html_def extracted_def Let_def)
  }
qed

theorem missing_audit_panel_placeholders_witness:
  "\<not> isl (parse_supplier_html sample_lib noon 0 empty_page) \<and>
   map (metrics (fst (projr (parse_supplier_html sample_lib noon 0 empty_page)))) quality_keys
     = [Some ''N/A'', Some ''N/A'', Some ''N/A'', Some ''N/A'', Some ''N/A'',
        Some ''N/A'', Some ''N/A'', Some ''N/A'', Some ''N/A'']"
proof -
  have a: "audit_panel empty_page = None" by (simp add: empty_page_def)
  have c: "(\<forall>c \<in> set (or_empty (quality_cert_cells empty_page))
              \<union> set (or_empty (env_cert_cells empty_page)). expiry_ok c) \<and>
           (\<forall>c \<in> set (or_empty (csr_cells empty_page)). csr_ok c)"
    by (simp add: empty_page_def or_empty_def)
  from missing_audit_panel_placeholders[OF a, of sample_lib noon 0] c
  obtain r g where p: "parse_supplier_html sample_lib noon 0 empty_page = Inr (r, g)"
    and k: "\<forall>k \<in> set quality_keys. metrics r k = Some ''N/A''"
    by blast
  from k have "map (metrics r) quality_keys =
      [Some ''N/A'', Some ''N/A'', Some ''N/A'', Some ''N/A'', Some ''N/A'',
        Some ''N/A'', Some ''N/A'', Some ''N/A'', Some ''N/A'']"
    by (simp add: quality_keys_def)
  with p show ?thesis by simp
qed

theorem missing_audit_panel_raises:
  "audit_panel bad_expiry_page = None \<and>
   isl (parse_supplier_html sample_lib noon 0 bad_expiry_page) \<and>
   projl (parse_supplier_html sample_lib noon 0 bad_expiry_page) = ValueError"
  by code_simp

lemma generate_series_indep: "generate_series L g q p = generate_series L g' q p"
  by (simp add: generate_series_def)

lemma supplier_total_indep: "supplier_total L g a b = supplier_total L g' a b"
  using generate_series_indep[of L g _ _ g']
  by (simp add: supplier_total_def split: option.splits)

lemma supplier_total_filled:
  "supplier_total L g a b = Some st \<Longrightarrow> filled (fst st) \<and> filled (fst (snd st))"
  by (auto simp: supplier_total_def filled_def split: option.splits
      dest: generate_series_shape)

lemma generate_series_Some:
  "gt_zero L v \<longrightarrow> to_int L v \<noteq> None \<Longrightarrow> \<exists>st. generate_series L g v p = Some st"
  by (cases "gt_zero L v") (auto simp: generate_series_def Let_def)

lemma perf_row_processed:
  assumes "processed_total L r"
  shows "supplier_total L g (cells r ! 7) (cells r ! 3) = Some (perf_row L r st)"
proof -
  from assms obtain v p where v: "cell_value L (cells r ! 7) = Some v"
    and p: "cell_value L (cells r ! 3) = Some p"
    and i: "gt_zero L v \<longrightarrow> to_int L v \<noteq> None"
    by (auto simp: processed_total_def split: option.splits)
  from generate_series_Some[OF i] obtain st' where "generate_series L g v p = Some st'"
    by blast
  with v p have s: "supplier_total L g (cells r ! 7) (cells r ! 3) = Some st'"
    by (simp add: supplier_total_def)
  then have "supplier_total L (snd (snd st)) (cells r ! 7) (cells r ! 3) = Some st'"
    using supplier_total_indep[of L g _ _ "snd (snd st)"] by simp
  with assms have "perf_row L r st = st'"
    by (auto simp: perf_row_def processed_total_def Let_def)
  with s show ?thesis by simp
qed

lemma perf_row_skipped: "\<not> processed_total L r \<Longrightarrow> perf_row L r st = st"
  by (auto simp: perf_row_def processed_total_def supplier_total_def generate_series_def Let_def
      split: option.splits if_splits)

lemma fold_perf_row_skipped:
  "\<forall>r \<in> set rs. \<not> processed_total L r \<Longrightarrow> fold (perf_row L) rs st = st"
  by (induction rs arbitrary: st) (simp_all add: perf_row_skipped)

lemma fold_perf_row_last:
  assumes "rs = rs1 @ [row] @ rs2" and "processed_total L row"
    and "\<forall>r \<in> set rs2. \<not> processed_total L r"
  shows "supplier_total L g (cells row ! 7) (cells row ! 3) = Some (fold (perf_row L) rs st)"
proof -
  have "fold (perf_row L) rs st = perf_row L row (fold (perf_row L) rs1 st)"
    using assms(1,3) by (simp add: fold_perf_row_skipped)
  with perf_row_processed[OF assms(2)] show ?thesis by simp
qed

lemma processed_split:
  assumes "\<exists>r \<in> set rs. processed_total L r"
  shows "\<exists>rs1 row rs2. rs = rs1 @ [row] @ rs2 \<and> processed_total L row \<and>
           (\<forall>r \<in> set rs2. \<not> processed_total L r)"
  using split_list_last_prop[OF assms] by auto

text \<open>
  C7. In every record that \<^verbatim>\<open>parse_supplier_html\<close> returns, each of the two series
  (qpm and ppm) is a pair of month labels and values of equal length, and the two series
  carry the same labels. When a row of the table \<^verbatim>\<open>tblSales2\<close> is processed as the
  supplier total, both series hold twelve values under the fixed labels Jan to Dec: the
  series generated from the two actual values of the last such row. When no row is
  processed so, in particular when the document has no such table, both series are
  empty, as they are initialised.
\<close>

theorem metric_series_shape:
  assumes "parse_supplier_html L now g0 pg = Inr (r, g')"
  shows "series_shape (qpm r) \<and> series_shape (ppm r) \<and> months (qpm r) = months (ppm r) \<and>
         length (months (qpm r)) = length (series_values (qpm r)) \<and>
         length (months (ppm r)) = length (series_values (ppm r)) \<and>
         ((\<exists>row \<in> set (or_empty (performance_rows pg)). processed_total L row) \<longrightarrow>
            months (qpm r) = MONTHS \<and> length (series_values (qpm r)) = 12 \<and>
            months (ppm r) = MONTHS \<and> length (series_values (ppm r)) = 12) \<and>
         (\<forall>rs1 row rs2. or_empty (performance_rows pg) = rs1 @ [row] @ rs2 \<and>
              processed_total L row \<and> (\<forall>x \<in> set rs2. \<not> processed_total L x) \<longrightarrow>
            supplier_total L g0 (cells row ! 7) (cells row ! 3) = Some (qpm r, ppm r, g')) \<and>
         (\<not> (\<exists>row \<in> set (or_empty (performance_rows pg)). processed_total L row) \<longrightarrow>
            months (qpm r) = [] \<and> series_values (qpm r) = [] \<and>
            months (ppm r) = [] \<and> series_values (ppm r) = []) \<and>
         (performance_rows pg = None \<longrightarrow> months (qpm r) = [] \<and> months (ppm r) = [])"
proof -
  let ?rs = "or_empty (performance_rows pg)"
  let ?st = "fold (perf_row L) ?rs (empty_series, empty_series, g0)"
  from assms have q: "qpm r = fst ?st" and p: "ppm r = fst (snd ?st)"
    by (auto elim: parse_supplier_html_Inr)
  from assms have g: "g' = snd (snd ?st)"
    by (auto simp: parse_supplier_html_def Let_def split: sum.splits)
  from q p g have st: "?st = (qpm r, ppm r, g')" by simp
  have last: "supplier_total L g0 (cells row ! 7) (cells row ! 3) = Some (qpm r, ppm r, g')"
    if "?rs = rs1 @ [row] @ rs2" "processed_total L row" "\<forall>x \<in> set rs2. \<not> processed_total L x"
    for rs1 row rs2
    using fold_perf_row_last[OF that, of g0 "(empty_series, empty_series, g0)"] st by simp
  have full: "filled (qpm r) \<and> filled (ppm r)" if "\<exists>row \<in> set ?rs. processed_total L row"
  proof -
    from processed_split[OF that] obtain rs1 row rs2 where
      "?rs = rs1 @ [row] @ rs2" "processed_total L row" "\<forall>x \<in> set rs2. \<not> processed_total L x"
      by blast
    from supplier_total_filled[OF last[OF this]] show ?thesis by simp
  qed
  have none: "qpm r = empty_series \<and> ppm r = empty_series"
    if "\<not> (\<exists>row \<in> set ?rs. processed_total L row)"
    using that q p by (simp add: fold_perf_row_skipped)
  have len: "length MONTHS = 12" by (simp add: MONTHS_def)
  have nt: "performance_rows pg = None \<longrightarrow> months (qpm r) = [] \<and> months (ppm r) = []"
    by (simp add: q p or_empty_def empty_series_def)
  have lastq: "\<forall>rs1 row rs2. ?rs = rs1 @ [row] @ rs2 \<and>
              processed_total L row \<and> (\<forall>x \<in> set rs2. \<not> processed_total L x) \<longrightarrow>
            supplier_total L g0 (cells row ! 7) (cells row ! 3) = Some (qpm r, ppm r, g')"
    using last by blast
  show ?thesis
  proof (cases "\<exists>row \<in> set ?rs. processed_total L row")
    case True
    from full[OF True] have f: "months (qpm r) = MONTHS" "length (series_values (qpm r)) = 12"
      "months (ppm r) = MONTHS" "length (series_values (ppm r)) = 12"
      by (simp_all add: filled_def)
    have "series_shape (qpm r) \<and> series_shape (ppm r)"
      using f by (simp add: series_shape_def)
    with f len nt lastq True show ?thesis by simp
  next
    case False
    from none[OF False] have e: "months (qpm r) = []" "series_values (qpm r) = []"
      "months (ppm r) = []" "series_values (ppm r) = []"
      by (simp_all add: empty_series_def)
    have "series_shape (qpm r) \<and> series_shape (ppm r)"
      using e by (simp add: series_shape_def)
    with e nt lastq False show ?thesis by simp
  qed
qed

lemma sample_page_total:
  "processed_total sample_lib total_row \<and> or_empty (performance_rows sample_page) = [total_row]"
  by code_simp

theorem metric_series_shape_witness:
  "months (qpm (fst (projr (parse_supplier_html sample_lib noon 0 sample_page)))) = MONTHS \<and>
   length (series_values (qpm (fst (projr (parse_supplier_html sample_lib noon 0 sample_page)))))
     = 12 \<and>
   months (ppm (fst (projr (parse_supplier_html sample_lib noon 0 sample_page)))) = MONTHS"
proof -
  obtain r g where p: "parse_supplier_html sample_lib noon 0 sample_page = Inr (r, g)"
    using not_isl_pair[OF sample_page_parses] by blast
  from sample_page_total
  have "\<exists>row \<in> set (or_empty (performance_rows sample_page)). processed_total sample_lib row"
    by simp
  with metric_series_shape[OF p] show ?thesis
    by (simp add: p)
qed

theorem metric_series_empty_without_table:
  "\<not> isl (parse_supplier_html sample_lib noon 0 empty_page) \<and>
   length (months (qpm (fst (projr (parse_supplier_html sample_lib noon 0 empty_page))))) = 0 \<and>
   length (series_values (ppm (fst (projr (parse_supplier_html sample_lib noon 0 empty_page)))))
     = 0"
  by code_simp

lemma for_csr_cells_append:
  "for_csr_cells (xs @ ys) am =
     (case for_csr_cells xs am of Inl e \<Rightarrow> Inl e | Inr am1 \<Rightarrow> for_csr_cells ys am1)"
  by (induction xs arbitrary: am) (simp_all split: sum.splits)

lemma csr_cell_grows: "csr_cell c am = Inr am' \<Longrightarrow> \<exists>new. fst am' = fst am @ new"
  by (auto simp: csr_cell_def Let_def split: option.splits sum.splits)

lemma for_csr_cells_grows: "for_csr_cells cs am = Inr am' \<Longrightarrow> \<exists>new. fst am' = fst am @ new"
proof (induction cs arbitrary: am)
  case Nil
  then show ?case by simp
next
  case (Cons c cs)
  from Cons.prems obtain am1 where c: "csr_cell c am = Inr am1"
    and r: "for_csr_cells cs am1 = Inr am'"
    by (auto split: sum.splits)
  from csr_cell_grows[OF c] obtain n1 where "fst am1 = fst am @ n1" by blast
  moreover from Cons.IH[OF r] obtain n2 where "fst am' = fst am1 @ n2" by blast
  ultimately show ?case by simp
qed

lemma for_csr_cells_no_percentage:
  "\<forall>c \<in> set cs. search_perc c = None \<Longrightarrow> for_csr_cells cs am = Inr am"
  by (induction cs arbitrary: am) (simp_all add: csr_cell_def)

text \<open>
  C4. A Sustainability Self-Assessment cell whose text holds a percentage \<open>p\<close> of at most
  4300 digits appends an audit entry whose status class is \<^verbatim>\<open>status-approved\<close> when
  \<open>p \<ge> 80\<close>, \<^verbatim>\<open>status-pending\<close> when \<open>60 \<le> p < 80\<close> and \<^verbatim>\<open>status-not-approved\<close> when
  \<open>p < 60\<close>, and writes the matching status \<^verbatim>\<open>Approved\<close>, \<^verbatim>\<open>Pending\<close> or \<^verbatim>\<open>Not Approved\<close>
  to the metric \<^verbatim>\<open>csrStatus\<close>; 85, 75 and 40 give the three classes in turn. The record
  returned holds that entry among its audits for every such cell of the row, and its
  \<^verbatim>\<open>csrStatus\<close> is the status of the last cell of the row that holds a percentage.
\<close>

theorem csr_classification:
  assumes "search_perc csr_text = Some ds" and "length ds \<le> int_max_str_digits"
    and "p = digits_val ds"
  shows "(\<exists>e m'. csr_cell csr_text (a, m) = Inr (a @ [e], m') \<and> title e = ''CSR'' \<and>
            status e = str_of_nat p @ ''%'' \<and>
            statusClass e = (if 80 \<le> p then ''status-approved''
                             else if 60 \<le> p then ''status-pending''
                             else ''status-not-approved'') \<and>
            m' ''csrStatus'' =
              Some (if 80 \<le> p then ''Approved'' else if 60 \<le> p then ''Pending''
                    else ''Not Approved'')) \<and>
         csr_class 85 = (''status-approved'', ''Approved'') \<and>
         csr_class 75 = (''status-pending'', ''Pending'') \<and>
         csr_class 40 = (''status-not-approved'', ''Not Approved'') \<and>
         (csr_text \<in> set (or_empty (csr_cells pg)) \<and>
              parse_supplier_html L now g0 pg = Inr (r, g') \<longrightarrow>
            (\<exists>e \<in> set (audits r). title e = ''CSR'' \<and> status e = str_of_nat p @ ''%'' \<and>
                statusClass e = fst (csr_class p))) \<and>
         (or_empty (csr_cells pg) = cs @ [csr_text] @ rest \<and>
              (\<forall>c \<in> set rest. search_perc c = None) \<and>
              parse_supplier_html L now g0 pg = Inr (r, g') \<longrightarrow>
            metrics r ''csrStatus'' = Some (snd (csr_class p)))"
proof (intro conjI impI)
  let ?e = "\<lparr>title = ''CSR'', status = str_of_nat p @ ''%'',
              statusClass = fst (csr_class p),
              date = ''Eval: '' @ (case search_labelled_date ''Evaluated:'' csr_text of
                           Some d \<Rightarrow> d | None \<Rightarrow> ''N/A'')\<rparr>"
  have step: "\<exists>m'. csr_cell csr_text am = Inr (fst am @ [?e], m') \<and>
                m' ''csrStatus'' = Some (snd (csr_class p))" for am
    using assms by (simp add: csr_cell_def py_int_def Let_def)
  from step[of "(a, m)"] obtain m' where m': "csr_cell csr_text (a, m) = Inr (a @ [?e], m')"
    "m' ''csrStatus'' = Some (snd (csr_class p))"
    by auto
  show "\<exists>e m'. csr_cell csr_text (a, m) = Inr (a @ [e], m') \<and> title e = ''CSR'' \<and>
            status e = str_of_nat p @ ''%'' \<and>
            statusClass e = (if 80 \<le> p then ''status-approved''
                             else if 60 \<le> p then ''status-pending''
                             else ''status-not-approved'') \<and>
            m' ''csrStatus'' =
              Some (if 80 \<le> p then ''Approved'' else if 60 \<le> p then ''Pending''
                    else ''Not Approved'')"
    using m' by (intro exI[of _ ?e] exI[of _ m']) (auto simp: csr_class_def)
  show "csr_class 85 = (''status-approved'', ''Approved'')"
    "csr_class 75 = (''status-pending'', ''Pending'')"
    "csr_class 40 = (''status-not-approved'', ''Not Approved'')"
    by (simp_all add: csr_class_def)
  have sub: "set (fst am) \<subseteq> set (audits r)" if "audits r = fill_audits (fst am)" for am
  proof (cases "length (fst am) \<le> 6")
    case True
    then show ?thesis using that by (simp add: fill_audits_pad)
  next
    case False
    then show ?thesis using that by (simp add: fill_audits_ge)
  qed
  {
    assume h: "csr_text \<in> set (or_empty (csr_cells pg)) \<and>
               parse_supplier_html L now g0 pg = Inr (r, g')"
    then obtain am qm where am: "extracted now pg = Inr am"
      and au: "audits r = fill_audits (fst am)"
      by (auto elim: parse_supplier_html_Inr)
    from am obtain a0 where
      f: "for_csr_cells (or_empty (csr_cells pg)) (a0, data_metrics) = Inr am"
      by (auto simp: extracted_def split: sum.splits)
    from h obtain xs ys where xy: "or_empty (csr_cells pg) = xs @ csr_text # ys"
      by (auto dest: split_list)
    from f xy obtain am1 am2 where "csr_cell csr_text am1 = Inr am2"
      and r2: "for_csr_cells ys am2 = Inr am"
      by (auto simp: for_csr_cells_append split: sum.splits)
    with step[of am1] have "fst am2 = fst am1 @ [?e]" by auto
    moreover from for_csr_cells_grows[OF r2] obtain new where "fst am = fst am2 @ new"
      by blast
    ultimately have "?e \<in> set (fst am)" by simp
    with sub[OF au] have "?e \<in> set (audits r)" by blast
    then show "\<exists>e \<in> set (audits r). title e = ''CSR'' \<and> status e = str_of_nat p @ ''%'' \<and>
                statusClass e = fst (csr_class p)"
      by (intro bexI[of _ ?e]) simp_all
  }
  {
    assume h: "or_empty (csr_cells pg) = cs @ [csr_text] @ rest \<and>
               (\<forall>c \<in> set rest. search_perc c = None) \<and>
               parse_supplier_html L now g0 pg = Inr (r, g')"
    then obtain am qm where am: "extracted now pg = Inr am"
      and qm: "parse_quality_audits (audit_panel pg) = Inr qm"
      and me: "metrics r = snd am ++ qm"
      by (auto elim: parse_supplier_html_Inr)
    from am obtain a0 where
      f: "for_csr_cells (or_empty (csr_cells pg)) (a0, data_metrics) = Inr am"
      by (auto simp: extracted_def split: sum.splits)
    from h have nr: "for_csr_cells rest x = Inr x" for x
      by (simp add: for_csr_cells_no_percentage)
    from f h obtain am1 where "csr_cell csr_text am1 = Inr am"
      by (auto simp: for_csr_cells_append nr split: sum.splits)
    with step[of am1] have s: "snd am ''csrStatus'' = Some (snd (csr_class p))" by auto
    have "qm ''csrStatus'' = quality_defaults ''csrStatus''"
      using qm by (rule quality_untouched) (simp add: quality_keys_def)
    then have "qm ''csrStatus'' = None" by (simp add: quality_defaults_def)
    with me s show "metrics r ''csrStatus'' = Some (snd (csr_class p))"
      by (simp add: map_add_def)
  }
qed

lemma sample_csr:
  "search_perc ''75% Evaluated: 2021-05-06'' = Some ''75'' \<and> digits_val ''75'' = 75"
  by code_simp

theorem csr_classification_witness:
  "metrics (fst (projr (parse_supplier_html sample_lib noon 0 sample_page))) ''csrStatus''
     = Some ''Pending'' \<and>
   (\<exists>e m'. csr_cell ''75% Evaluated: 2021-05-06'' ([], Map.empty) = Inr ([e], m') \<and>
      statusClass e = ''status-pending'' \<and> m' ''csrStatus'' = Some ''Pending'')"
proof -
  obtain r g where p: "parse_supplier_html sample_lib noon 0 sample_page = Inr (r, g)"
    using not_isl_pair[OF sample_page_parses] by blast
  have c: "or_empty (csr_cells sample_page) = [] @ [''75% Evaluated: 2021-05-06''] @ []"
    by (simp add: sample_page_def or_empty_def)
  have s: "search_perc ''75% Evaluated: 2021-05-06'' = Some ''75''" and d: "75 = digits_val ''75''"
    using sample_csr by simp_all
  have l: "length ''75'' \<le> int_max_str_digits" by (simp add: int_max_str_digits_def)
  note t = csr_classification[OF s l d, of "[]" Map.empty sample_page sample_lib noon 0 r g
      "[]" "[]"]
  from t c p have "metrics r ''csrStatus'' = Some (snd (csr_class 75))" by simp
  moreover from t obtain e m' where
    "csr_cell ''75% Evaluated: 2021-05-06'' ([], Map.empty) = Inr ([] @ [e], m')"
    "statusClass e = ''status-pending''" "m' ''csrStatus'' = Some ''Pending''"
    by auto
  ultimately show ?thesis by (auto simp: p csr_class_def)
qed

theorem csr_status_of_last_cell_only:
  "\<not> isl (parse_supplier_html sample_lib noon 0 two_csr_page) \<and>
   status (audits (fst (projr (parse_supplier_html sample_lib noon 0 two_csr_page))) ! 0)
     = ''85%'' \<and>
   statusClass (audits (fst (projr (parse_supplier_html sample_lib noon 0 two_csr_page))) ! 0)
     = ''status-approved'' \<and>
   metrics (fst (projr (parse_supplier_html sample_lib noon 0 two_csr_page))) ''csrStatus''
     = Some ''Not Approved''"
  by code_simp

lemma starts_with_iff: "starts_with p s \<longleftrightarrow> (\<exists>b. s = p @ b)"
  by (induction p s rule: starts_with.induct) auto

lemma is_substr_iff: "is_substr p s \<longleftrightarrow> (\<exists>a b. s = a @ p @ b)"
proof (induction s)
  case Nil
  show ?case by auto
next
  case (Cons c s)
  show ?case
  proof
    assume "is_substr p (c # s)"
    then consider "starts_with p (c # s)" | "is_substr p s" by auto
    then show "\<exists>a b. c # s = a @ p @ b"
    proof cases
      case 1
      then obtain b where "c # s = p @ b" unfolding starts_with_iff by blast
      then have "c # s = [] @ p @ b" by simp
      then show ?thesis by blast
    next
      case 2
      with Cons.IH obtain a b where "s = a @ p @ b" by blast
      then have "c # s = (c # a) @ p @ b" by simp
      then show ?thesis by blast
    qed
  next
    assume "\<exists>a b. c # s = a @ p @ b"
    then obtain a b where ab: "c # s = a @ p @ b" by blast
    show "is_substr p (c # s)"
    proof (cases a)
      case Nil
      with ab have "c # s = p @ b" by simp
      then have "starts_with p (c # s)" unfolding starts_with_iff by blast
      then show ?thesis by simp
    next
      case (Cons x a')
      with ab have "s = a' @ p @ b" by simp
      with Cons.IH have "is_substr p s" by blast
      then show ?thesis by simp
    qed
  qed
qed

lemma lower_append: "lower (a @ b) = lower a @ lower b"
  by (simp add: lower_def)

lemma contains_lowered:
  assumes "html = a @ u @ b" and "lower u = t"
  shows "is_substr t (lower html)"
proof -
  have "lower html = lower a @ t @ lower b" using assms by (simp add: lower_append)
  then show ?thesis unfolding is_substr_iff by blast
qed

text \<open>
  C8. The page is classified by the login markers first, then the access-denied markers,
  then the not-found markers, and the first class that matches gives the result: no
  scrape result and that class's message. A page that matches none of the three is
  returned with no error. In particular a page whose source holds, in any letter case, a
  login marker and an access-denied marker is classified as login-required.
\<close>

theorem classification_precedence:
  "(login_marked ttl html \<longrightarrow>
      scrape_volvo_scorecard sid url ttl html stamp = (None, Some (login_msg sid))) \<and>
   (\<not> login_marked ttl html \<and> denied_marked html \<longrightarrow>
      scrape_volvo_scorecard sid url ttl html stamp = (None, Some (denied_msg sid))) \<and>
   (\<not> login_marked ttl html \<and> \<not> denied_marked html \<and> not_found_marked html \<longrightarrow>
      scrape_volvo_scorecard sid url ttl html stamp = (None, Some (not_found_msg sid))) \<and>
   (\<not> login_marked ttl html \<and> \<not> denied_marked html \<and> \<not> not_found_marked html \<longrightarrow>
      snd (scrape_volvo_scorecard sid url ttl html stamp) = None \<and>
      (\<exists>sr. fst (scrape_volvo_scorecard sid url ttl html stamp) = Some sr \<and>
            html_content sr = html \<and> supplier_id sr = sid)) \<and>
   (html = a @ u @ b \<and> lower u \<in> set login_terms \<and>
    html = c @ v @ d \<and> lower v \<in> set denied_terms \<longrightarrow>
      scrape_volvo_scorecard sid url ttl html stamp = (None, Some (login_msg sid)))"
proof -
  let ?res = "scrape_volvo_scorecard sid url ttl html stamp"
  have l: "?res = (None, Some (login_msg sid))" if "login_marked ttl html"
    using that unfolding scrape_volvo_scorecard_def login_marked_def Let_def list_ex_iff
    by (rule if_P)
  have d: "?res = (None, Some (denied_msg sid))"
    if "\<not> login_marked ttl html" "denied_marked html"
    using that unfolding scrape_volvo_scorecard_def login_marked_def denied_marked_def Let_def
      list_ex_iff
    by (simp only: if_False if_True)
  have n: "?res = (None, Some (not_found_msg sid))"
    if "\<not> login_marked ttl html" "\<not> denied_marked html" "not_found_marked html"
    using that unfolding scrape_volvo_scorecard_def login_marked_def denied_marked_def
      not_found_marked_def Let_def list_ex_iff
    by (simp only: if_False if_True)
  have s: "snd ?res = None \<and> (\<exists>sr. fst ?res = Some sr \<and> html_content sr = html \<and>
             supplier_id sr = sid)"
    if "\<not> login_marked ttl html" "\<not> denied_marked html" "\<not> not_found_marked html"
    using that unfolding scrape_volvo_scorecard_def login_marked_def denied_marked_def
      not_found_marked_def Let_def list_ex_iff
    by (simp only: if_False fst_conv snd_conv) simp
  have b: "?res = (None, Some (login_msg sid))"
    if "html = a @ u @ b \<and> lower u \<in> set login_terms \<and>
        html = c @ v @ d \<and> lower v \<in> set denied_terms"
  proof -
    from that have "is_substr (lower u) (lower html)"
      by (intro contains_lowered[of html a u b]) simp_all
    with that have "login_marked ttl html" unfolding login_marked_def by blast
    then show ?thesis by (rule l)
  qed
  from l d n s b show ?thesis by blast
qed

lemma sample_markers:
  "''Access Denied. LOGIN here'' = ''Access Denied. '' @ ''LOGIN'' @ '' here'' \<and>
   lower ''LOGIN'' \<in> set login_terms \<and>
   ''Access Denied. LOGIN here'' = [] @ ''Access Denied'' @ ''. LOGIN here'' \<and>
   lower ''Access Denied'' \<in> set denied_terms"
  by code_simp

theorem classification_precedence_witness:
  "scrape_volvo_scorecard ''12'' ''u'' ''t'' ''Access Denied. LOGIN here'' ''s''
     = (None, Some (login_msg ''12''))"
  using classification_precedence[where html = "''Access Denied. LOGIN here''"
      and a = "''Access Denied. ''" and u = "''LOGIN''" and b = "'' here''"
      and c = "[]" and v = "''Access Denied''" and d = "''. LOGIN here''"
      and sid = "''12''" and url = "''u''" and ttl = "''t''" and stamp = "''s''",
      THEN conjunct2, THEN conjunct2, THEN conjunct2, THEN conjunct2, THEN mp,
      OF sample_markers] .

lemma py_lt_same: "is_int_code x = is_int_code y \<Longrightarrow> py_lt x y = Inr (code_less x y)"
  by (cases x; cases y) simp_all

lemma py_lt_mixed: "is_int_code x \<noteq> is_int_code y \<Longrightarrow> py_lt x y = Inl TypeError"
  by (cases x; cases y) simp_all

lemma code_less_irrefl: "\<not> code_less x x"
  by (cases x) simp_all

lemma code_less_trans: "code_less x y \<Longrightarrow> code_less y z \<Longrightarrow> code_less x z"
  by (cases x; cases y; cases z) auto

lemma code_less_total:
  "is_int_code x = is_int_code y \<Longrightarrow> x \<noteq> y \<Longrightarrow> \<not> code_less x y \<Longrightarrow> code_less y x"
  by (cases x; cases y) auto

lemma sorted_code_less_distinct: "sorted_wrt code_less xs \<Longrightarrow> distinct xs"
  by (induction xs) (auto simp: code_less_irrefl)

lemma set_code_insert: "set (code_insert x ys) = insert x (set ys)"
  by (induction ys) (simp_all add: insert_commute)

lemma sorted_code_insert:
  assumes "\<forall>y \<in> set ys. is_int_code y = is_int_code x" and "sorted_wrt code_less ys"
    and "x \<notin> set ys"
  shows "sorted_wrt code_less (code_insert x ys)"
  using assms
proof (induction ys)
  case Nil
  show ?case by simp
next
  case (Cons y ys)
  show ?case
  proof (cases "code_less x y")
    case True
    have "code_less x z" if "z \<in> set ys" for z
    proof -
      from Cons.prems(2) that have "code_less y z" by simp
      with True show ?thesis by (rule code_less_trans)
    qed
    with True Cons.prems(2) show ?thesis by simp
  next
    case False
    from Cons.prems have "is_int_code x = is_int_code y" "x \<noteq> y" by simp_all
    then have yx: "code_less y x" using False by (rule code_less_total)
    have "sorted_wrt code_less (code_insert x ys)"
      using Cons.prems by (intro Cons.IH) simp_all
    moreover from Cons.prems(2) have "\<forall>z \<in> set ys. code_less y z" by simp
    ultimately show ?thesis using False yx by (simp add: set_code_insert)
  qed
qed

lemma set_code_sort: "set (code_sort cs) = set cs"
  unfolding code_sort_def by (induction cs) (simp_all add: set_code_insert)

lemma sorted_code_sort:
  assumes "\<forall>c \<in> set cs. is_int_code c = k" and "distinct cs"
  shows "sorted_wrt code_less (code_sort cs)"
  using assms
proof (induction cs)
  case Nil
  show ?case by (simp add: code_sort_def)
next
  case (Cons c cs)
  have "sorted_wrt code_less (code_insert c (code_sort cs))"
  proof (rule sorted_code_insert)
    show "\<forall>y \<in> set (code_sort cs). is_int_code y = is_int_code c"
      using Cons.prems(1) by (simp add: set_code_sort)
    show "sorted_wrt code_less (code_sort cs)"
      using Cons.prems by (intro Cons.IH) simp_all
    show "c \<notin> set (code_sort cs)"
      using Cons.prems(2) by (simp add: set_code_sort)
  qed
  then show ?case by (simp add: code_sort_def)
qed

lemma py_insert_same:
  "\<forall>y \<in> set ys. is_int_code y = is_int_code x \<Longrightarrow> py_insert x ys = Inr (code_insert x ys)"
  by (induction ys) (simp_all add: py_lt_same)

lemma py_sorted_same:
  "\<forall>c \<in> set cs. is_int_code c = k \<Longrightarrow> py_sorted cs = Inr (code_sort cs)"
proof (induction cs)
  case Nil
  show ?case by (simp add: code_sort_def)
next
  case (Cons c cs)
  then have "py_sorted cs = Inr (code_sort cs)" by simp
  moreover have "py_insert c (code_sort cs) = Inr (code_insert c (code_sort cs))"
    using Cons.prems by (intro py_insert_same) (simp add: set_code_sort)
  ultimately show ?case by (simp add: code_sort_def)
qed

lemma py_insert_kind:
  "py_insert x (y # ys) = Inr r \<Longrightarrow> is_int_code x = is_int_code y"
proof (rule ccontr)
  assume a: "py_insert x (y # ys) = Inr r" and "is_int_code x \<noteq> is_int_code y"
  then have "py_lt x y = Inl TypeError" by (intro py_lt_mixed)
  with a show False by simp
qed

lemma py_insert_set: "py_insert x ys = Inr r \<Longrightarrow> set r = insert x (set ys)"
proof (induction ys arbitrary: r)
  case Nil
  then show ?case by auto
next
  case (Cons y ys)
  from py_insert_kind[OF Cons.prems] have k: "py_lt x y = Inr (code_less x y)"
    by (rule py_lt_same)
  show ?case
  proof (cases "code_less x y")
    case True
    with Cons.prems k show ?thesis by auto
  next
    case False
    with Cons.prems k obtain r' where r': "py_insert x ys = Inr r'" "r = y # r'"
      by (cases "py_insert x ys") simp_all
    from Cons.IH[OF r'(1)] r'(2) show ?thesis by (simp add: insert_commute)
  qed
qed

lemma py_sorted_Inr:
  "py_sorted cs = Inr r \<Longrightarrow> set r = set cs \<and> (\<exists>k. \<forall>c \<in> set cs. is_int_code c = k)"
proof (induction cs arbitrary: r)
  case Nil
  then show ?case by simp
next
  case (Cons c cs)
  from Cons.prems obtain s where s: "py_sorted cs = Inr s" and i: "py_insert c s = Inr r"
    by (cases "py_sorted cs") simp_all
  from Cons.IH[OF s] have h1: "set s = set cs" by (rule conjunct1)
  from Cons.IH[OF s] obtain k where h2: "\<forall>b \<in> set cs. is_int_code b = k" by blast
  have j: "set r = insert c (set cs)" using py_insert_set[OF i] h1 by simp
  have "\<exists>k. \<forall>b \<in> set (c # cs). is_int_code b = k"
  proof (cases s)
    case Nil
    with h1 have "cs = []" by simp
    then show ?thesis by simp
  next
    case (Cons y ys)
    with i have "py_insert c (y # ys) = Inr r" by simp
    then have "is_int_code c = is_int_code y" by (rule py_insert_kind)
    moreover from Cons h1 have "y \<in> set cs" by auto
    ultimately have "is_int_code c = k" using h2 by simp
    with h2 show ?thesis by auto
  qed
  with j show ?case by simp
qed

lemma one_kind_iff: "one_kind cs \<longleftrightarrow> (\<exists>k. \<forall>c \<in> set cs. is_int_code c = k)"
proof
  assume "one_kind cs"
  then consider "\<forall>c \<in> set cs. is_int_code c = True" | "\<forall>c \<in> set cs. is_int_code c = False"
    unfolding one_kind_def list_all_iff by auto
  then show "\<exists>k. \<forall>c \<in> set cs. is_int_code c = k" by cases blast+
next
  assume "\<exists>k. \<forall>c \<in> set cs. is_int_code c = k"
  then obtain k where k: "\<forall>c \<in> set cs. is_int_code c = k" by blast
  show "one_kind cs"
    unfolding one_kind_def list_all_iff using k by (cases k) simp_all
qed

lemma one_kind_remdups: "one_kind (remdups cs) = one_kind cs"
  by (simp add: one_kind_iff)

text \<open>
  C10. When the codes of all people are of one kind (all integers, or all strings) and
  there is at least one, \<^verbatim>\<open>load_supplier_ids_from_toml\<close> returns them without
  duplicates in ascending order: every code of the input is in the result, each exactly
  once. When there is no code it returns \<^verbatim>\<open>None\<close>. When the codes are of both kinds the
  sort raises \<^verbatim>\<open>TypeError\<close>, which is caught, and the result is \<^verbatim>\<open>None\<close> as well.
\<close>

theorem supplier_ids_sorted_unique:
  "(one_kind (all_codes people) \<and> all_codes people \<noteq> [] \<longrightarrow>
      (\<exists>ids. load_supplier_ids_from_toml people = Some ids \<and>
             set ids = set (all_codes people) \<and> sorted_wrt code_less ids \<and> distinct ids \<and>
             ids = code_sort (remdups (all_codes people)))) \<and>
   (all_codes people = [] \<longrightarrow> load_supplier_ids_from_toml people = None) \<and>
   (\<not> one_kind (all_codes people) \<longrightarrow> load_supplier_ids_from_toml people = None)"
proof (intro conjI impI)
  let ?cs = "remdups (all_codes people)"
  {
    assume h: "one_kind (all_codes people) \<and> all_codes people \<noteq> []"
    then have "one_kind ?cs" by (simp add: one_kind_remdups)
    then obtain k where k: "\<forall>c \<in> set ?cs. is_int_code c = k"
      unfolding one_kind_iff by blast
    have p: "py_sorted ?cs = Inr (code_sort ?cs)" using k by (rule py_sorted_same)
    have s: "set (code_sort ?cs) = set (all_codes people)" by (simp add: set_code_sort)
    with h have ne: "code_sort ?cs \<noteq> []" by auto
    have so: "sorted_wrt code_less (code_sort ?cs)"
      using k by (rule sorted_code_sort) simp
    from p ne have "load_supplier_ids_from_toml people = Some (code_sort ?cs)"
      by (simp add: load_supplier_ids_from_toml_def)
    with s so sorted_code_less_distinct[OF so]
    show "\<exists>ids. load_supplier_ids_from_toml people = Some ids \<and>
             set ids = set (all_codes people) \<and> sorted_wrt code_less ids \<and> distinct ids \<and>
             ids = code_sort (remdups (all_codes people))"
      by blast
  }
  {
    assume "all_codes people = []"
    then show "load_supplier_ids_from_toml people = None"
      by (simp add: load_supplier_ids_from_toml_def)
  }
  {
    assume n: "\<not> one_kind (all_codes people)"
    have "isl (py_sorted ?cs)"
    proof (rule ccontr)
      assume "\<not> isl (py_sorted ?cs)"
      then obtain r where "py_sorted ?cs = Inr r" by (cases "py_sorted ?cs") auto
      from py_sorted_Inr[OF this] have "one_kind ?cs" unfolding one_kind_iff by (rule conjunct2)
      with n show False by (simp add: one_kind_remdups)
    qed
    then show "load_supplier_ids_from_toml people = None"
      by (cases "py_sorted ?cs") (simp_all add: load_supplier_ids_from_toml_def)
  }
qed

lemma sample_people_codes:
  "one_kind (all_codes sample_people) \<and> all_codes sample_people \<noteq> [] \<and>
   code_sort (remdups (all_codes sample_people)) = [IntCode 1, IntCode 2, IntCode 3]"
  by code_simp

theorem supplier_ids_sorted_unique_witness:
  "load_supplier_ids_from_toml sample_people = Some [IntCode 1, IntCode 2, IntCode 3]"
  using supplier_ids_sorted_unique[of sample_people] sample_people_codes by auto

theorem supplier_ids_mixed_kinds_none:
  "all_codes mixed_people = [IntCode 1, StrCode ''2''] \<and>
   load_supplier_ids_from_toml mixed_people = None"
  by code_simp

text \<open>
  C1. The claim asks that a segment holding \<^verbatim>\<open>Not Approved\<close> gets the status
  \<^verbatim>\<open>Not Approved\<close>. On a panel whose three segments stand in reading order, the SMA
  segment is cut out as the claim says and its percentage and date are recovered, but
  the status is \<^verbatim>\<open>Approved\<close>: lines 58 to 61 ask for \<^verbatim>\<open>Approved\<close> first, which every
  \<^verbatim>\<open>Not Approved\<close> contains. The SEM panel (lines 180 to 186) asks for the negation first
  and gives \<^verbatim>\<open>Not Approved\<close> on the same text.
\<close>

theorem approved_tested_before_not_approved:
  "sma_match panel_text = Some '' Not Approved 40% Normal (A B , 2017-03-17)'' \<and>
   \<not> isl (parse_quality_audits (Some panel_text)) \<and>
   projr (parse_quality_audits (Some panel_text)) ''sma'' = Some ''40%'' \<and>
   projr (parse_quality_audits (Some panel_text)) ''smaDate'' = Some ''2017-03-17'' \<and>
   projr (parse_quality_audits (Some panel_text)) ''smaStatus'' = Some ''Approved'' \<and>
   status (sem_entry '' Not Approved 40% Normal (A B , 2017-03-17)'') = ''Not Approved 40%''"
  by code_simp

end
